theory Spec2Isabelle
  imports Main "HOL-Library.Sublist" "HOL-Library.AList"
begin

section \<open>Lumina Studio 3MF helpers: the data model\<close>

text \<open>
  The development embeds \<^verbatim>\<open>utils/add_3mf_colors.py\<close> and
  \<^verbatim>\<open>utils/helpers.py\<close>.

  Python \<^verbatim>\<open>str\<close> values are modelled as \<open>string\<close>, one \<open>char\<close> per code
  point, so the model covers texts whose code points lie in U+0000..U+00FF; the
  character classes below are those of Python's \<^verbatim>\<open>re\<close> module on that range.
  Python \<^verbatim>\<open>bytes\<close> values are \<open>string\<close>s as well, one \<open>char\<close> per byte.
  A \<^verbatim>\<open>dict\<close> is an association list in insertion order, written with
  \<open>AList.update\<close> (an existing key keeps its position, a new one goes last).
  Every \<^verbatim>\<open>raise\<close> of the source is a value \<open>Inl e\<close>; the calls of
  \<^verbatim>\<open>print\<close> have no counterpart, and input and output are assumed not to fail
  once an archive has been opened.
\<close>

type_synonym bytes = string
type_synonym 'v dict = "(string \<times> 'v) list"

datatype error =
    BadZipFile
  | KeyError string
  | UnicodeDecodeError
  | ParseError
  | ValueError string

subsection \<open>Color mode definitions\<close>

definition RYBW_COLORS :: "string dict" where
  "RYBW_COLORS =
     [(''Red'', ''#FF0000FF''), (''Yellow'', ''#FFFF00FF''),
      (''Blue'', ''#0000FFFF''), (''White'', ''#FFFFFFFF'')]"

definition CMYW_COLORS :: "string dict" where
  "CMYW_COLORS =
     [(''Cyan'', ''#00FFFFFF''), (''Magenta'', ''#FF00FFFF''),
      (''Yellow'', ''#FFFF00FF''), (''White'', ''#FFFFFFFF'')]"

definition MATERIAL_NAMESPACE :: string where
  "MATERIAL_NAMESPACE = ''http://schemas.microsoft.com/3dmanufacturing/material/2015/02''"

text \<open>\<^verbatim>\<open>key in d\<close> and \<^verbatim>\<open>d.get(key, default)\<close> on a dict.\<close>

definition has_key :: "string \<Rightarrow> 'v dict \<Rightarrow> bool" where
  "has_key k d = (k \<in> set (map fst d))"

definition dict_get :: "'v dict \<Rightarrow> string \<Rightarrow> 'v \<Rightarrow> 'v" where
  "dict_get d k dflt = (case map_of d k of None \<Rightarrow> dflt | Some v \<Rightarrow> v)"

definition get_colorgroup_id :: "string \<Rightarrow> string \<Rightarrow> string" where
  "get_colorgroup_id color_name color_mode =
     (let rybw_map = [(''Red'', ''1''), (''Yellow'', ''2''), (''Blue'', ''3''), (''White'', ''4'')];
          cmyw_map = [(''Cyan'', ''1''), (''Magenta'', ''2''), (''Yellow'', ''3''), (''White'', ''4'')];
          color_to_id_map = (if color_mode = ''cmyw'' then cmyw_map else rybw_map)
      in dict_get color_to_id_map color_name ''1'')"

definition detect_color_mode :: "string list \<Rightarrow> string" where
  "detect_color_mode object_names =
     (let rybw_count = sum_list [1::nat. name \<leftarrow> object_names, has_key name RYBW_COLORS];
          cmyw_count = sum_list [1::nat. name \<leftarrow> object_names, has_key name CMYW_COLORS]
      in if cmyw_count > rybw_count then ''cmyw''
         else if rybw_count > cmyw_count then ''rybw''
         else ''rybw'')"

section \<open>The textual pass of the name fixer\<close>

subsection \<open>Character classes of the regular expressions\<close>

text \<open>
  The classes written backslash-s, backslash-d and the word characters behind
  backslash-b, as Python's \<^verbatim>\<open>re\<close> module classifies the code points below 256
  in a \<^verbatim>\<open>str\<close> pattern; \<open>lower_ascii\<close> is the case folding that
  \<^verbatim>\<open>re.IGNORECASE\<close> applies to the letters of the object pattern.
\<close>

definition is_space :: "char \<Rightarrow> bool" where
  "is_space c = (c \<in> set [CHR 0x09, CHR 0x0A, CHR 0x0B, CHR 0x0C, CHR 0x0D,
                           CHR 0x1C, CHR 0x1D, CHR 0x1E, CHR 0x1F, CHR 0x20, CHR 0x85, CHR 0xA0])"

definition is_digit :: "char \<Rightarrow> bool" where
  "is_digit c = (c \<in> set ''0123456789'')"

definition is_word :: "char \<Rightarrow> bool" where
  "is_word c =
     (let n = (of_char c :: nat) in
        (48 \<le> n \<and> n \<le> 57) \<or> (65 \<le> n \<and> n \<le> 90) \<or> n = 95 \<or> (97 \<le> n \<and> n \<le> 122)
        \<or> n = 170 \<or> n = 178 \<or> n = 179 \<or> n = 181 \<or> n = 185 \<or> n = 186
        \<or> (188 \<le> n \<and> n \<le> 190) \<or> (192 \<le> n \<and> n \<le> 214)
        \<or> (216 \<le> n \<and> n \<le> 246) \<or> (248 \<le> n \<and> n \<le> 255))"

definition lower_ascii :: "char \<Rightarrow> char" where
  "lower_ascii c =
     (let n = (of_char c :: nat) in if 65 \<le> n \<and> n \<le> 90 then char_of (n + 32) else c)"

subsection \<open>String search\<close>

text \<open>\<^verbatim>\<open>s.find(sub)\<close>: the least index where \<open>sub\<close> starts, \<open>None\<close> for -1.\<close>

fun find_sub :: "string \<Rightarrow> string \<Rightarrow> nat option" where
  "find_sub sub [] = (if sub = [] then Some 0 else None)"
| "find_sub sub (c # cs) =
     (if prefix sub (c # cs) then Some 0 else map_option Suc (find_sub sub cs))"

text \<open>\<^verbatim>\<open>sub in s\<close> on strings.\<close>

definition contains :: "string \<Rightarrow> string \<Rightarrow> bool" where
  "contains sub s = (find_sub sub s \<noteq> None)"

subsection \<open>Object start-tags\<close>

text \<open>
  The object pattern (the word object after an opening angle bracket, one or more
  white-space characters, then any characters but a closing angle bracket, then that
  bracket; case ignored) tried at the head of a text. After the seven characters the
  next one must be white space, and the two greedy repetitions together run to the
  first closing bracket, which must exist. \<open>match_object\<close> returns the length of
  the match; \<open>object_attrs\<close> is group 1 of a matched tag.
\<close>

definition match_object :: "string \<Rightarrow> nat option" where
  "match_object s =
     (if map lower_ascii (take 7 s) = ''<object''
         \<and> (case drop 7 s of [] \<Rightarrow> False | c # _ \<Rightarrow> is_space c)
         \<and> CHR ''>'' \<in> set (drop 7 s)
      then Some (7 + length (takeWhile (\<lambda>c. c \<noteq> CHR ''>'') (drop 7 s)) + 1)
      else None)"

definition object_attrs :: "string \<Rightarrow> string" where
  "object_attrs full_tag =
     dropWhile is_space (takeWhile (\<lambda>c. c \<noteq> CHR ''>'') (drop 7 full_tag))"

text \<open>
  \<^verbatim>\<open>object_pattern.finditer(content)\<close>: the matches from left to right, each
  search resuming where the previous match ended. A match is reported as
  (start, end, group 0, group 1).
\<close>

function finditer_object :: "nat \<Rightarrow> string \<Rightarrow> (nat \<times> nat \<times> string \<times> string) list" where
  "finditer_object pos [] = []"
| "finditer_object pos (c # cs) =
     (case match_object (c # cs) of
        None \<Rightarrow> finditer_object (pos + 1) cs
      | Some n \<Rightarrow> (pos, pos + n, take n (c # cs), object_attrs (take n (c # cs)))
                   # finditer_object (pos + n) (drop n (c # cs)))"
  by pat_completeness auto
termination
  by (relation "measure (\<lambda>(pos, s). length s)") (auto simp: match_object_def split: if_splits)

text \<open>
  The id pattern (a word boundary, then id, an equals sign and a double-quoted run of
  one or more digits) as \<^verbatim>\<open>re.search\<close> applies it to group 1: \<open>match_id\<close>
  tries it at the head of a text and returns the digits; \<open>search_id b s\<close> scans
  \<open>s\<close>, where \<open>b\<close> says that the character before \<open>s\<close> is no word character
  (or that \<open>s\<close> starts the searched string).
\<close>

definition match_id :: "string \<Rightarrow> string option" where
  \<open>match_id s =
     (if prefix ''id="'' s
      then (let ds = takeWhile is_digit (drop 4 s); r = dropWhile is_digit (drop 4 s)
            in if ds \<noteq> [] \<and> prefix ''"'' r then Some ds else None)
      else None)\<close>

fun search_id :: "bool \<Rightarrow> string \<Rightarrow> string option" where
  "search_id b [] = None"
| "search_id b (c # cs) =
     (case (if b then match_id (c # cs) else None) of
        Some d \<Rightarrow> Some d
      | None \<Rightarrow> search_id (\<not> is_word c) cs)"

text \<open>
  The name pattern (one or more white-space characters, then name, an equals sign and
  a double-quoted value) at the head of a text, and
  \<^verbatim>\<open>re.sub\<close> of that pattern by the empty string.
\<close>

definition match_name :: "string \<Rightarrow> nat option" where
  \<open>match_name s =
     (let ws = takeWhile is_space s; r = dropWhile is_space s
      in if ws \<noteq> [] \<and> prefix ''name="'' r \<and> CHR ''"'' \<in> set (drop 6 r)
         then Some (length ws + 6 + length (takeWhile (\<lambda>c. c \<noteq> CHR ''"'') (drop 6 r)) + 1)
         else None)\<close>

function sub_name :: "string \<Rightarrow> string" where
  "sub_name [] = []"
| "sub_name (c # cs) =
     (case match_name (c # cs) of
        None \<Rightarrow> c # sub_name cs
      | Some n \<Rightarrow> sub_name (drop n (c # cs)))"
  by pat_completeness auto
termination
  by (relation "measure length") (auto simp: match_name_def Let_def split: if_splits)

subsection \<open>Name fixing\<close>

text \<open>
  \<open>find_objects\<close> is the list \<^verbatim>\<open>obj_info\<close> of (start, end, full tag, id):
  the matches of the object pattern whose group 1 holds a numeric id.
\<close>

definition with_id ::
  "(nat \<times> nat \<times> string \<times> string) list \<Rightarrow> (nat \<times> nat \<times> string \<times> string) list" where
  "with_id matches =
     concat (map (\<lambda>(start, stop, full_tag, attrs).
                    case search_id True attrs of
                      None \<Rightarrow> []
                    | Some obj_id \<Rightarrow> [(start, stop, full_tag, obj_id)])
                 matches)"

definition find_objects :: "string \<Rightarrow> (nat \<times> nat \<times> string \<times> string) list" where
  "find_objects content = with_id (finditer_object 0 content)"

text \<open>The new tag: the name attributes removed, the last character dropped, the new name appended.\<close>

definition rename_tag :: "string \<Rightarrow> string \<Rightarrow> string" where
  \<open>rename_tag old_tag color_name =
     (let new_tag = sub_name old_tag
      in butlast new_tag @ '' name="'' @ color_name @ ''">'')\<close>

text \<open>
  The loop over \<^verbatim>\<open>enumerate(reversed(obj_info))\<close>; \<open>n\<close> is
  \<^verbatim>\<open>len(obj_info)\<close>.
\<close>

fun rename_loop ::
  "nat \<Rightarrow> string list \<Rightarrow> (nat \<times> nat \<times> nat \<times> string \<times> string) list \<Rightarrow> string \<Rightarrow> string" where
  "rename_loop n slot_names [] content = content"
| "rename_loop n slot_names ((idx, start, stop, old_tag, obj_id) # rest) content =
     (let real_idx = n - 1 - idx
      in if real_idx \<ge> length slot_names then rename_loop n slot_names rest content
         else (let color_name = slot_names ! real_idx
               in rename_loop n slot_names rest
                    (take start content @ rename_tag old_tag color_name @ drop stop content)))"

definition fix_names :: "string list \<Rightarrow> string \<Rightarrow> string" where
  "fix_names slot_names content =
     (let obj_info = find_objects content
      in rename_loop (length obj_info) slot_names (enumerate 0 (rev obj_info)) content)"

subsection \<open>Assembly synthesis\<close>

text \<open>
  \<^verbatim>\<open>int(oid)\<close> on a run of decimal digits, and \<^verbatim>\<open>str(n)\<close>. Python's
  integers are unbounded, but CPython (from 3.11 on) raises a ValueError when a
  conversion between \<^verbatim>\<open>str\<close> and \<^verbatim>\<open>int\<close> involves more digits than
  \<^verbatim>\<open>sys.get_int_max_str_digits()\<close>, 4300 by default: for \<^verbatim>\<open>int\<close> the
  digits of the string are counted, leading zeros included, for \<^verbatim>\<open>str\<close> the
  digits of the number.
\<close>

definition int_max_str_digits :: nat where
  "int_max_str_digits = 4300"

definition int_of_str :: "string \<Rightarrow> error + nat" where
  "int_of_str s =
     (if length s > int_max_str_digits
      then Inl (ValueError ''Exceeds the limit for integer string conversion'')
      else Inr (foldl (\<lambda>a c. 10 * a + (of_char c - 48)) 0 s))"

function digits_of_nat :: "nat \<Rightarrow> string" where
  "digits_of_nat n =
     (if n < 10 then [char_of (48 + n)] else digits_of_nat (n div 10) @ [char_of (48 + n mod 10)])"
  by pat_completeness auto
termination
  by (relation "measure id") auto

definition str_of_int :: "nat \<Rightarrow> error + string" where
  "str_of_int n =
     (let s = digits_of_nat n
      in if length s > int_max_str_digits
         then Inl (ValueError ''Exceeds the limit for integer string conversion'')
         else Inr s)"

text \<open>
  The generator \<^verbatim>\<open>int(oid) for oid in object_ids\<close> as \<^verbatim>\<open>max\<close> consumes
  it: the conversions in order, up to the first that raises.
\<close>

fun int_each :: "string list \<Rightarrow> error + nat list" where
  "int_each [] = Inr []"
| "int_each (oid # oids) =
     (case int_of_str oid of
        Inl e \<Rightarrow> Inl e
      | Inr n \<Rightarrow> (case int_each oids of Inl e \<Rightarrow> Inl e | Inr ns \<Rightarrow> Inr (n # ns)))"

text \<open>\<^verbatim>\<open>max\<close> of a sequence; the caller guards against the empty one.\<close>

definition max_of :: "nat list \<Rightarrow> nat" where
  "max_of ns = (case ns of [] \<Rightarrow> 0 | m # ms \<Rightarrow> fold max ms m)"

fun join :: "string \<Rightarrow> string list \<Rightarrow> string" where
  "join sep [] = []"
| "join sep [x] = x"
| "join sep (x # y # ys) = x @ sep @ join sep (y # ys)"

text \<open>
  The two formatted strings of the source; each formats \<^verbatim>\<open>assembly_id\<close> with
  \<^verbatim>\<open>str\<close>, which may raise.
\<close>

definition assembly_xml :: "nat \<Rightarrow> string list \<Rightarrow> error + string" where
  \<open>assembly_xml assembly_id object_ids =
     (let components_xml =
            join ''\<newline>'' (map (\<lambda>oid. ''      <component objectid="'' @ oid @ ''" />'') object_ids)
      in case str_of_int assembly_id of
           Inl e \<Rightarrow> Inl e
         | Inr sid \<Rightarrow>
             Inr (''\<newline>  <object id="'' @ sid @ ''" type="model" name="Lumina_Model">''
                  @ ''\<newline>    <components>\<newline>'' @ components_xml
                  @ ''\<newline>    </components>\<newline>  </object>\<newline>''))\<close>

definition new_build :: "nat \<Rightarrow> error + string" where
  \<open>new_build assembly_id =
     (case str_of_int assembly_id of
        Inl e \<Rightarrow> Inl e
      | Inr sid \<Rightarrow> Inr (''<build>\<newline>    <item objectid="'' @ sid @ ''" />\<newline>  </build>''))\<close>

text \<open>
  \<^verbatim>\<open>build_pattern.search(content)\<close> for the pattern that matches, non-greedily and
  across lines, from an opening build tag to a closing one: every start position is
  tried from the left; at a position where the opening tag stands, the match ends with
  the first closing tag after it. The result is (start, end) of the match.
\<close>

fun build_search :: "string \<Rightarrow> (nat \<times> nat) option" where
  "build_search [] = None"
| "build_search (c # cs) =
     (case (if prefix ''<build>'' (c # cs)
            then map_option (\<lambda>k. (0, 7 + k + 8)) (find_sub ''</build>'' (drop 7 (c # cs)))
            else None) of
        Some m \<Rightarrow> Some m
      | None \<Rightarrow> map_option (\<lambda>(s, e). (Suc s, Suc e)) (build_search cs))"

text \<open>
  The whole textual pass on the decoded model entry: find the objects, fix the names,
  and, when an assembly is requested and more than one object was found, insert the
  assembly before the closing resources tag (if the text has one) and replace the
  build section (if the pattern matches). The result is the new text, or the
  ValueError of a conversion.
\<close>

definition object_ids :: "string \<Rightarrow> string list" where
  "object_ids content0 = map (\<lambda>(start, stop, full_tag, obj_id). obj_id) (find_objects content0)"

definition fix_model_text :: "string list \<Rightarrow> bool \<Rightarrow> string \<Rightarrow> error + string" where
  "fix_model_text slot_names create_assembly content0 =
     (let content = fix_names slot_names content0
      in if create_assembly \<and> length (object_ids content0) > 1
         then (case int_each (object_ids content0) of
                 Inl e \<Rightarrow> Inl e
               | Inr ints \<Rightarrow>
                   (let max_id = max_of ints;
                        assembly_id = max_id + 1
                    in case assembly_xml assembly_id (object_ids content0) of
                         Inl e \<Rightarrow> Inl e
                       | Inr assembly \<Rightarrow>
                           (let content =
                                  (case find_sub ''</resources>'' content of
                                     None \<Rightarrow> content
                                   | Some resources_end \<Rightarrow>
                                       take resources_end content @ assembly
                                       @ drop resources_end content)
                            in case build_search content of
                                 None \<Rightarrow> Inr content
                               | Some (s, e) \<Rightarrow>
                                   (case new_build assembly_id of
                                      Inl e \<Rightarrow> Inl e
                                    | Inr build \<Rightarrow>
                                        Inr (take s content @ build @ drop e content)))))
         else Inr content)"

section \<open>The structural pass: element trees\<close>

text \<open>
  An \<^verbatim>\<open>xml.etree.ElementTree.Element\<close>: tag, attribute dict, text, tail and
  children. A namespaced tag is the namespace in braces followed by the local name.
  The source mutates elements in place; the functions below return the changed
  element instead.
\<close>

datatype element =
  Element (tag: string) (attrib: "string dict") (el_text: "string option")
          (el_tail: "string option") (children: "element list")

text \<open>\<^verbatim>\<open>el.set(key, value)\<close>, \<^verbatim>\<open>el.get(key)\<close> and the replacement of the child list.\<close>

definition set_attr :: "element \<Rightarrow> string \<Rightarrow> string \<Rightarrow> element" where
  "set_attr el key v =
     Element (tag el) (AList.update key v (attrib el)) (el_text el) (el_tail el) (children el)"

definition get_attr :: "element \<Rightarrow> string \<Rightarrow> string option" where
  "get_attr el key = map_of (attrib el) key"

definition set_children :: "element \<Rightarrow> element list \<Rightarrow> element" where
  "set_children el cs = Element (tag el) (attrib el) (el_text el) (el_tail el) cs"

text \<open>\<^verbatim>\<open>s.split(sep)\<close> for a separator of one character.\<close>

fun split_char :: "char \<Rightarrow> string \<Rightarrow> string list" where
  "split_char sep [] = [[]]"
| "split_char sep (c # cs) =
     (if c = sep then [] # split_char sep cs
      else (case split_char sep cs of [] \<Rightarrow> [[c]] | p # ps \<Rightarrow> (c # p) # ps))"

text \<open>
  The test \<^verbatim>\<open>name in child.tag.split('}')\<close> by which the source recognises an
  element whatever its namespace.
\<close>

definition local_name_is :: "string \<Rightarrow> element \<Rightarrow> bool" where
  "local_name_is nm el = (nm \<in> set (split_char (CHR ''}'') (tag el)))"

text \<open>
  The index of the first element that satisfies a test: the loops of the source that
  stop at the first hit. \<open>find_path\<close> is \<^verbatim>\<open>el.find(path)\<close> for a path that
  is a single tag, plain or with its namespace in braces: the first child with exactly
  that tag.
\<close>

fun first_index :: "('a \<Rightarrow> bool) \<Rightarrow> 'a list \<Rightarrow> nat option" where
  "first_index P [] = None"
| "first_index P (x # xs) = (if P x then Some 0 else map_option Suc (first_index P xs))"

definition find_path :: "element \<Rightarrow> string \<Rightarrow> nat option" where
  "find_path el path = first_index (\<lambda>c. tag c = path) (children el)"

definition is_assembly :: "element \<Rightarrow> bool" where
  "is_assembly object_element =
     (case find_path object_element ''components'' of
        Some i \<Rightarrow> True
      | None \<Rightarrow> list_ex (local_name_is ''components'') (children object_element))"

subsection \<open>The object catalog\<close>

record object_info =
  info_element :: element
  info_id :: "string option"
  info_name :: string
  info_type :: string
  info_is_assembly :: bool

text \<open>\<^verbatim>\<open>s.strip('{')\<close>.\<close>

definition strip_brace :: "string \<Rightarrow> string" where
  "strip_brace s =
     rev (dropWhile (\<lambda>c. c = CHR ''{'') (rev (dropWhile (\<lambda>c. c = CHR ''{'') s)))"

text \<open>
  The three attempts of \<open>get_objects_info\<close> to find the resources element, as the
  index of the child found: the plain tag, the tag in the namespace of the root, and
  the first child whose tag splits to the name.
\<close>

definition locate_resources :: "element \<Rightarrow> nat option" where
  "locate_resources root =
     (let resources = find_path root ''resources'';
          resources =
            (if resources = None
             then (let tag_namespace =
                         (if CHR ''}'' \<in> set (tag root)
                          then strip_brace (case split_char (CHR ''}'') (tag root) of
                                              [] \<Rightarrow> [] | p # ps \<Rightarrow> p)
                          else [])
                   in if tag_namespace \<noteq> []
                      then find_path root (''{'' @ tag_namespace @ ''}resources'')
                      else resources)
             else resources)
      in if resources = None
         then first_index (local_name_is ''resources'') (children root)
         else resources)"

definition catalog_entry :: "element \<Rightarrow> object_info" where
  "catalog_entry obj =
     \<lparr>info_element = obj,
      info_id = get_attr obj ''id'',
      info_name = dict_get (attrib obj) ''name'' [],
      info_type = dict_get (attrib obj) ''type'' ''model'',
      info_is_assembly = is_assembly obj\<rparr>"

definition get_objects_info :: "element \<Rightarrow> error + object_info list" where
  "get_objects_info root =
     (case locate_resources root of
        None \<Rightarrow> Inl (ValueError ''<resources> element missing in XML'')
      | Some i \<Rightarrow>
          Inr (map catalog_entry (filter (local_name_is ''object'') (children (children root ! i)))))"

subsection \<open>Colorgroup insertion\<close>

definition new_colorgroup :: "string \<Rightarrow> string \<Rightarrow> element" where
  "new_colorgroup colorgroup_id color_value =
     Element (''{'' @ MATERIAL_NAMESPACE @ ''}colorgroup'') [(''id'', colorgroup_id)] None None
       [Element (''{'' @ MATERIAL_NAMESPACE @ ''}color'') [(''color'', color_value)] None None []]"

text \<open>\<^verbatim>\<open>list.insert(i, x)\<close> for an index within the list.\<close>

definition list_insert :: "nat \<Rightarrow> 'a \<Rightarrow> 'a list \<Rightarrow> 'a list" where
  "list_insert i x xs = take i xs @ [x] @ drop i xs"

definition insert_colorgroups :: "element \<Rightarrow> string \<Rightarrow> element \<times> string dict" where
  "insert_colorgroups resources color_mode =
     (let colors = (if color_mode = ''cmyw'' then CMYW_COLORS else RYBW_COLORS);
          colorgroup_elements =
            map (\<lambda>(color_name, color_value).
                   new_colorgroup (get_colorgroup_id color_name color_mode) color_value) colors;
          colorgroup_map =
            fold (\<lambda>(color_name, color_value) m.
                    AList.update color_name (get_colorgroup_id color_name color_mode) m) colors [];
          object_index = first_index (local_name_is ''object'') (children resources);
          new_children =
            fold (\<lambda>colorgroup cs.
                    case object_index of
                      Some i \<Rightarrow> list_insert i colorgroup cs
                    | None \<Rightarrow> cs @ [colorgroup])
                 (rev colorgroup_elements) (children resources)
      in (set_children resources new_children, colorgroup_map))"

text \<open>The colorgroup elements of a mode written out, in the declared order of its palette.\<close>

definition colorgroups_of :: "string \<Rightarrow> element list" where
  "colorgroups_of color_mode =
     (if color_mode = ''cmyw''
      then [new_colorgroup ''1'' ''#00FFFFFF'', new_colorgroup ''2'' ''#FF00FFFF'',
            new_colorgroup ''3'' ''#FFFF00FF'', new_colorgroup ''4'' ''#FFFFFFFF'']
      else [new_colorgroup ''1'' ''#FF0000FF'', new_colorgroup ''2'' ''#FFFF00FF'',
            new_colorgroup ''3'' ''#0000FFFF'', new_colorgroup ''4'' ''#FFFFFFFF''])"

subsection \<open>Triangle and build item tagging\<close>

definition color_triangle :: "string \<Rightarrow> element \<Rightarrow> element" where
  "color_triangle colorgroup_id triangle =
     (if local_name_is ''triangle'' triangle
      then set_attr (set_attr triangle ''pid'' colorgroup_id) ''p1'' ''0''
      else triangle)"

text \<open>
  The body of the loop of \<open>add_triangle_colors\<close> for one object whose colorgroup id
  is known: \<open>None\<close> when the mesh or the triangles element is missing (the object
  is skipped), else the object with its triangles tagged and their number.
\<close>

definition color_object :: "string \<Rightarrow> element \<Rightarrow> (element \<times> nat) option" where
  "color_object colorgroup_id object_element =
     (case first_index (local_name_is ''mesh'') (children object_element) of
        None \<Rightarrow> None
      | Some mi \<Rightarrow>
          (let mesh = children object_element ! mi
           in case first_index (local_name_is ''triangles'') (children mesh) of
                None \<Rightarrow> None
              | Some ti \<Rightarrow>
                  (let triangles = children mesh ! ti;
                       triangles' = set_children triangles
                                      (map (color_triangle colorgroup_id) (children triangles));
                       count = length (filter (local_name_is ''triangle'') (children triangles));
                       mesh' = set_children mesh ((children mesh)[ti := triangles'])
                   in Some (set_children object_element ((children object_element)[mi := mesh']),
                            count))))"

text \<open>
  The triangles element of an object as the source locates it: the first triangles
  child of the first mesh child.
\<close>

definition triangles_of :: "element \<Rightarrow> element option" where
  "triangles_of object_element =
     (case first_index (local_name_is ''mesh'') (children object_element) of
        None \<Rightarrow> None
      | Some mi \<Rightarrow>
          (case first_index (local_name_is ''triangles'') (children (children object_element ! mi)) of
             None \<Rightarrow> None
           | Some ti \<Rightarrow> Some (children (children object_element ! mi) ! ti)))"

fun add_triangle_colors_loop ::
  "object_info list \<Rightarrow> string dict \<Rightarrow> nat dict \<Rightarrow> object_info list \<times> nat dict" where
  "add_triangle_colors_loop [] colorgroup_map stats = ([], stats)"
| "add_triangle_colors_loop (obj # objs) colorgroup_map stats =
     (if info_is_assembly obj
      then (let (objs', stats') = add_triangle_colors_loop objs colorgroup_map stats
            in (obj # objs', stats'))
      else (case map_of colorgroup_map (info_name obj) of
              None \<Rightarrow> (let (objs', stats') = add_triangle_colors_loop objs colorgroup_map stats
                        in (obj # objs', stats'))
            | Some colorgroup_id \<Rightarrow>
                (case color_object colorgroup_id (info_element obj) of
                   None \<Rightarrow> (let (objs', stats') = add_triangle_colors_loop objs colorgroup_map stats
                             in (obj # objs', stats'))
                 | Some (el', count) \<Rightarrow>
                     (let (objs', stats') =
                            add_triangle_colors_loop objs colorgroup_map
                              (AList.update (info_name obj) count stats)
                      in (obj\<lparr>info_element := el'\<rparr> # objs', stats')))))"

definition add_triangle_colors ::
  "object_info list \<Rightarrow> string dict \<Rightarrow> object_info list \<times> nat dict" where
  "add_triangle_colors objects colorgroup_map = add_triangle_colors_loop objects colorgroup_map []"

text \<open>What the loop does to one catalog entry.\<close>

definition tag_object :: "string dict \<Rightarrow> object_info \<Rightarrow> object_info" where
  "tag_object m obj =
     (if info_is_assembly obj then obj
      else (case map_of m (info_name obj) of
              None \<Rightarrow> obj
            | Some cid \<Rightarrow>
                (case color_object cid (info_element obj) of
                   None \<Rightarrow> obj
                 | Some (el', n) \<Rightarrow> obj\<lparr>info_element := el'\<rparr>)))"

definition tag_item :: "string dict \<Rightarrow> element \<Rightarrow> element" where
  "tag_item colorgroup_map item =
     (if local_name_is ''item'' item
      then (let partnumber = dict_get (attrib item) ''partnumber'' []
            in case map_of colorgroup_map partnumber of
                 Some materialid \<Rightarrow> set_attr item ''materialid'' materialid
               | None \<Rightarrow> item)
      else item)"

definition item_stat ::
  "string dict \<Rightarrow> element \<Rightarrow> (string option \<times> string) list \<Rightarrow> (string option \<times> string) list" where
  "item_stat colorgroup_map item stats =
     (if local_name_is ''item'' item
      then (let objectid = get_attr item ''objectid'';
                partnumber = dict_get (attrib item) ''partnumber'' []
            in case map_of colorgroup_map partnumber of
                 Some materialid \<Rightarrow> AList.update objectid materialid stats
               | None \<Rightarrow> stats)
      else stats)"

definition add_build_materials ::
  "element \<Rightarrow> string dict \<Rightarrow> element \<times> (string option \<times> string) list" where
  "add_build_materials root colorgroup_map =
     (case first_index (local_name_is ''build'') (children root) of
        None \<Rightarrow> (root, [])
      | Some bi \<Rightarrow>
          (let build = children root ! bi;
               build' = set_children build (map (tag_item colorgroup_map) (children build));
               stats = fold (item_stat colorgroup_map) (children build) []
           in (set_children root ((children root)[bi := build']), stats)))"

subsection \<open>Adding colors to an XML string\<close>

text \<open>
  The library functions the source calls and that are not part of it: the XML parser
  and serialiser of \<^verbatim>\<open>xml.etree.ElementTree\<close> and the UTF-8 codec. They are
  parameters of the model.
\<close>

record xml_lib =
  ET_fromstring :: "bytes \<Rightarrow> error + element"
  ET_tostring :: "element \<Rightarrow> bytes"
  utf8_encode :: "string \<Rightarrow> bytes"
  utf8_decode :: "bytes \<Rightarrow> error + string"

text \<open>
  The catalog holds references to the object elements of the tree, and
  \<open>add_triangle_colors\<close> changes the tree through them. In the model the changed
  elements are put back where the catalog took them from: \<open>replace_objects\<close>
  walks the children of the catalogued resources element and replaces its object
  children, in order, by the elements of the updated catalog.
\<close>

fun replace_objects :: "element list \<Rightarrow> element list \<Rightarrow> element list" where
  "replace_objects [] news = []"
| "replace_objects (c # cs) news =
     (if local_name_is ''object'' c
      then (case news of
              [] \<Rightarrow> c # replace_objects cs []
            | n # ns \<Rightarrow> n # replace_objects cs ns)
      else c # replace_objects cs news)"

definition add_colors_to_xml_string :: "xml_lib \<Rightarrow> string \<Rightarrow> string \<Rightarrow> error + string" where
  "add_colors_to_xml_string lib xml_string color_mode =
     (case ET_fromstring lib (utf8_encode lib xml_string) of
        Inl e \<Rightarrow> Inl e
      | Inr root \<Rightarrow>
     (case get_objects_info root of
        Inl e \<Rightarrow> Inl e
      | Inr objects \<Rightarrow>
     (let object_names = map info_name (filter (\<lambda>obj. \<not> info_is_assembly obj) objects);
          detected_mode = detect_color_mode object_names;
          final_color_mode = (if color_mode = ''auto'' then detected_mode else color_mode)
      in case first_index (local_name_is ''resources'') (children root) of
           None \<Rightarrow> Inl (ValueError ''Cannot find resources element'')
         | Some ri \<Rightarrow>
     (let (resources', colorgroup_map) = insert_colorgroups (children root ! ri) final_color_mode;
          root1 = set_children root ((children root)[ri := resources']);
          (objects', triangle_stats) = add_triangle_colors objects colorgroup_map;
          root2 = (case locate_resources root of
                     None \<Rightarrow> root1
                   | Some ci \<Rightarrow>
                       (let catalogued = children root1 ! ci
                        in set_children root1
                             ((children root1)
                                [ci := set_children catalogued
                                         (replace_objects (children catalogued)
                                            (map info_element objects'))])));
          (root3, build_stats) = add_build_materials root2 colorgroup_map
      in utf8_decode lib (ET_tostring lib root3)))))"

section \<open>Fixing the names in a 3MF file\<close>

text \<open>
  A ZIP archive is the list of its entries (name, content) in stored order. A path
  holds \<open>Some\<close> archive, or \<open>None\<close> when no ZIP archive can be read there.
  \<open>zf_read\<close> is \<^verbatim>\<open>ZipFile.read(name)\<close>, which returns the content of the
  last entry of that name; \<open>read_entries\<close> is the loop that fills
  \<^verbatim>\<open>files_data\<close>.
\<close>

type_synonym archive = "(string \<times> bytes) list"

definition open_archive :: "archive option \<Rightarrow> error + archive" where
  "open_archive file = (case file of None \<Rightarrow> Inl BadZipFile | Some ar \<Rightarrow> Inr ar)"

definition zf_read :: "archive \<Rightarrow> string \<Rightarrow> error + bytes" where
  "zf_read ar name = (case map_of (rev ar) name of None \<Rightarrow> Inl (KeyError name) | Some d \<Rightarrow> Inr d)"

fun read_entries :: "archive \<Rightarrow> string list \<Rightarrow> bytes dict \<Rightarrow> error + bytes dict" where
  "read_entries ar [] files_data = Inr files_data"
| "read_entries ar (name # names) files_data =
     (case zf_read ar name of
        Inl e \<Rightarrow> Inl e
      | Inr d \<Rightarrow> read_entries ar names (AList.update name d files_data))"

text \<open>The search for the 3D model file: the first name of the dict that passes the test.\<close>

definition is_model_name :: "string \<Rightarrow> bool" where
  "is_model_name name = (suffix ''.model'' name \<and> contains ''3D/'' name)"

definition find_model_file :: "bytes dict \<Rightarrow> string option" where
  "find_model_file files_data = List.find is_model_name (map fst files_data)"

text \<open>
  The processing of the model entry (the body of the \<^verbatim>\<open>if model_file\<close> block):
  the new \<^verbatim>\<open>files_data\<close>, or the error that leaves the block. An error of the
  color stage is caught inside.
\<close>

definition process_model ::
  "xml_lib \<Rightarrow> bytes dict \<Rightarrow> string \<Rightarrow> string list \<Rightarrow> bool \<Rightarrow> bool \<Rightarrow> string option
     \<Rightarrow> error + bytes dict" where
  "process_model lib files_data model_file slot_names create_assembly enable_colors color_mode =
     (case map_of files_data model_file of
        None \<Rightarrow> Inl (KeyError model_file)
      | Some data \<Rightarrow>
     (case utf8_decode lib data of
        Inl e \<Rightarrow> Inl e
      | Inr content0 \<Rightarrow>
     (case fix_model_text slot_names create_assembly content0 of
        Inl e \<Rightarrow> Inl e
      | Inr content \<Rightarrow>
         if enable_colors
         then (let actual_color_mode =
                     (case color_mode of
                        None \<Rightarrow> detect_color_mode slot_names
                      | Some m \<Rightarrow> m)
               in case add_colors_to_xml_string lib content actual_color_mode of
                    Inr modified_content \<Rightarrow>
                      Inr (AList.update model_file (utf8_encode lib modified_content) files_data)
                  | Inl e \<Rightarrow> Inr files_data)
         else Inr (AList.update model_file (utf8_encode lib content) files_data))))"

text \<open>
  The \<^verbatim>\<open>try\<close> block of \<open>safe_fix_3mf_names\<close>: the archive written back, or
  the error raised before anything is written.
\<close>

definition fix_3mf_names_try ::
  "xml_lib \<Rightarrow> archive option \<Rightarrow> string list \<Rightarrow> bool \<Rightarrow> bool \<Rightarrow> string option
     \<Rightarrow> error + archive" where
  "fix_3mf_names_try lib file slot_names create_assembly enable_colors color_mode =
     (case open_archive file of
        Inl e \<Rightarrow> Inl e
      | Inr zf_in \<Rightarrow>
     (case read_entries zf_in (map fst zf_in) [] of
        Inl e \<Rightarrow> Inl e
      | Inr files_data \<Rightarrow>
     (case find_model_file files_data of
        None \<Rightarrow> Inr files_data
      | Some model_file \<Rightarrow>
          if model_file \<noteq> [] \<and> has_key model_file files_data
          then process_model lib files_data model_file slot_names create_assembly
                 enable_colors color_mode
          else Inr files_data)))"

text \<open>
  \<open>safe_fix_3mf_names\<close>: the state of the file at the path afterwards. The
  \<^verbatim>\<open>except Exception\<close> clause prints a warning and returns, so the result is never
  an error.
\<close>

definition safe_fix_3mf_names ::
  "xml_lib \<Rightarrow> archive option \<Rightarrow> string list \<Rightarrow> bool \<Rightarrow> bool \<Rightarrow> string option
     \<Rightarrow> error + archive option" where
  "safe_fix_3mf_names lib file slot_names create_assembly enable_colors color_mode =
     (case fix_3mf_names_try lib file slot_names create_assembly enable_colors color_mode of
        Inl e \<Rightarrow> Inr file
      | Inr files_data \<Rightarrow> Inr (Some files_data))"

text \<open>A well-formed model text with two objects whose opening build tag carries an attribute.\<close>

definition build_with_attribute_xml :: string where
  \<open>build_with_attribute_xml =
     ''<model xmlns:p="p"><resources><object id="1"></object><object id="2"></object></resources>''
     @ ''<build p:UUID="b"><item objectid="1"/></build></model>''\<close>

text \<open>An object named Red with one triangle, and a model whose build section holds one item with part number White.\<close>

definition red_object :: element where
  "red_object =
     Element ''object'' [(''id'', ''1''), (''name'', ''Red'')] None None
       [Element ''mesh'' [] None None
          [Element ''vertices'' [] None None [],
           Element ''triangles'' [] None None
             [Element ''triangle'' [(''v1'', ''0''), (''v2'', ''1''), (''v3'', ''2'')] None None []]]]"

definition white_item_root :: element where
  "white_item_root =
     Element ''model'' [] None None
       [Element ''build'' [] None None
          [Element ''item'' [(''objectid'', ''1''), (''partnumber'', ''White'')] None None []]]"

text \<open>
  A model text with one object and no resources element, its name-fixed form, and a
  model text with an empty resources element; a library instance for the examples,
  whose parser knows the last two texts (and rejects every other input) and whose
  serialiser is a stub; an archive with a model entry and one without.
\<close>

definition plain_object_xml :: string where
  \<open>plain_object_xml = ''<model><object id="1"></object></model>''\<close>

definition named_object_xml :: string where
  \<open>named_object_xml = ''<model><object id="1" name="Red"></object></model>''\<close>

definition empty_resources_xml :: string where
  \<open>empty_resources_xml = ''<model><resources></resources></model>''\<close>

definition example_lib :: xml_lib where
  "example_lib =
     \<lparr>ET_fromstring =
        (\<lambda>b. if b = named_object_xml
             then Inr (Element ''model'' [] None None
                         [Element ''object'' [(''id'', ''1''), (''name'', ''Red'')] None None []])
             else if b = empty_resources_xml
             then Inr (Element ''model'' [] None None [Element ''resources'' [] None None []])
             else Inl ParseError),
      ET_tostring = (\<lambda>root. ''<serialized/>''),
      utf8_encode = (\<lambda>s. s),
      utf8_decode = (\<lambda>b. Inr b)\<rparr>"

definition model_archive :: archive where
  "model_archive = [(''[Content_Types].xml'', ''<Types/>''), (''3D/3dmodel.model'', plain_object_xml)]"

definition auxiliary_archive :: archive where
  "auxiliary_archive = [(''[Content_Types].xml'', ''<Types/>''), (''_rels/.rels'', ''<Relationships/>'')]"

section \<open>Color mode detection\<close>

lemma sum_list_ones_filter:
  "sum_list (concat (map (\<lambda>x. if P x then [1::nat] else []) xs)) = length (filter P xs)"
  by (induction xs) simp_all

text \<open>
  C8. \<open>detect_color_mode\<close> counts, for each of the two fixed palettes, the candidate
  names that are exactly one of its four entry names, returns \<open>cmyw\<close> when the CMYW
  count is strictly higher and \<open>rybw\<close> otherwise (a strictly higher RYBW count and
  every tie, zero against zero included). The candidates Yellow, White give
  \<open>rybw\<close>; Cyan, Magenta give \<open>cmyw\<close>.
\<close>

theorem detect_color_mode_majority:
  "detect_color_mode names =
     (if length (filter (\<lambda>n. n \<in> {''Cyan'', ''Magenta'', ''Yellow'', ''White''}) names)
         > length (filter (\<lambda>n. n \<in> {''Red'', ''Yellow'', ''Blue'', ''White''}) names)
      then ''cmyw'' else ''rybw'')
   \<and> detect_color_mode [] = ''rybw''
   \<and> detect_color_mode [''Yellow'', ''White''] = ''rybw''
   \<and> detect_color_mode [''Cyan'', ''Magenta''] = ''cmyw''"
proof -
  have r: "has_key n RYBW_COLORS \<longleftrightarrow> n \<in> {''Red'', ''Yellow'', ''Blue'', ''White''}" for n
    by (auto simp: has_key_def RYBW_COLORS_def)
  have c: "has_key n CMYW_COLORS \<longleftrightarrow> n \<in> {''Cyan'', ''Magenta'', ''Yellow'', ''White''}" for n
    by (auto simp: has_key_def CMYW_COLORS_def)
  have gen: "detect_color_mode ns =
     (if length (filter (\<lambda>n. n \<in> {''Cyan'', ''Magenta'', ''Yellow'', ''White''}) ns)
         > length (filter (\<lambda>n. n \<in> {''Red'', ''Yellow'', ''Blue'', ''White''}) ns)
      then ''cmyw'' else ''rybw'')" for ns
    unfolding detect_color_mode_def Let_def sum_list_ones_filter r c by simp
  show ?thesis
    unfolding gen [of "[]"] gen [of "[''Yellow'', ''White'']"] gen [of "[''Cyan'', ''Magenta'']"]
    using gen [of names] by simp
qed

section \<open>Name fixing and the attributes it does not recognise\<close>

text \<open>
  C5. The name-fix pass recognises a numeric id and a pre-existing name attribute only
  when they are written with double quotes directly after the equals sign. A name
  attribute in single quotes, or with spaces around the equals sign, is not dropped:
  the tag keeps it beside the new name. An object start-tag whose numeric id is in
  single quotes takes no rank: it stays unrenamed and the next tag takes its name.
  (Source comments: find all object tags with their IDs; remove existing name
  attribute and add new one.)
\<close>

theorem quoted_attributes_missed:
  \<open>fix_names [''Red''] ''<model><object id="1" name='a'></object></model>''
     = ''<model><object id="1" name='a' name="Red"></object></model>''
   \<and> fix_names [''Red''] ''<model><object id="1" name = "o"></object></model>''
     = ''<model><object id="1" name = "o" name="Red"></object></model>''
   \<and> fix_names [''Red'', ''Blue''] ''<model><object id='4'></object><object id="5"></object></model>''
     = ''<model><object id='4'></object><object id="5" name="Red"></object></model>''\<close>
  by code_simp

section \<open>Assembly synthesis and the build section\<close>



lemma fix_model_text_assembly:
  assumes "1 < length (object_ids content)"
    and "int_each (object_ids content) = Inr ints"
    and "assembly_xml (max_of ints + 1) (object_ids content) = Inr assembly"
    and "r = find_sub ''</resources>'' (fix_names slot_names content)"
    and "c2 = (case r of
                 None \<Rightarrow> fix_names slot_names content
               | Some k \<Rightarrow> take k (fix_names slot_names content) @ assembly
                             @ drop k (fix_names slot_names content))"
    and "build_search c2 = None"
  shows "fix_model_text slot_names True content = Inr c2"
  using assms(1,2,3,6) unfolding assms(5) assms(4)
  by (simp add: fix_model_text_def Let_def)

text \<open>
  C3. The build pattern matches an opening build tag only when it is written without
  attributes. On the well-formed model text below, whose opening build tag carries an
  attribute, two objects with numeric ids are found and the assembly object with id 3
  is inserted before the closing resources tag, but the build section is not
  rewritten: it still holds its item for object 1 and no item for the assembly.
  (Source comment: modify the build section to only reference the assembly.)
\<close>

theorem build_with_attribute_kept:
  \<open>1 < length (object_ids build_with_attribute_xml)
   \<and> fix_model_text [] True build_with_attribute_xml
       = Inr (''<model xmlns:p="p"><resources><object id="1"></object><object id="2"></object>''
              @ ''\<newline>  <object id="3" type="model" name="Lumina_Model">''
              @ ''\<newline>    <components>''
              @ ''\<newline>      <component objectid="1" />''
              @ ''\<newline>      <component objectid="2" />''
              @ ''\<newline>    </components>''
              @ ''\<newline>  </object>\<newline></resources>''
              @ ''<build p:UUID="b"><item objectid="1"/></build></model>'')\<close>
proof -
  have objs: \<open>find_objects build_with_attribute_xml
               = [(30, 45, ''<object id="1">'', ''1''), (54, 69, ''<object id="2">'', ''2'')]\<close>
    unfolding build_with_attribute_xml_def by code_simp
  have ids: \<open>object_ids build_with_attribute_xml = [''1'', ''2'']\<close>
    by (simp add: object_ids_def objs)
  have h: "1 < length (object_ids build_with_attribute_xml)"
    by (simp add: ids)
  have names: "fix_names [] build_with_attribute_xml = build_with_attribute_xml"
    by (simp add: fix_names_def objs enumerate_eq_zip)
  have ints: "int_each (object_ids build_with_attribute_xml) = Inr [1, 2]"
    unfolding ids by code_simp
  have axml: \<open>assembly_xml (max_of [1, 2] + 1) (object_ids build_with_attribute_xml)
      = Inr (''\<newline>  <object id="3" type="model" name="Lumina_Model">''
             @ ''\<newline>    <components>''
             @ ''\<newline>      <component objectid="1" />''
             @ ''\<newline>      <component objectid="2" />''
             @ ''\<newline>    </components>''
             @ ''\<newline>  </object>\<newline>'')\<close>
    unfolding ids by code_simp
  have res: \<open>Some 78 = find_sub ''</resources>'' (fix_names [] build_with_attribute_xml)\<close>
    unfolding names build_with_attribute_xml_def by code_simp
  have c2: \<open>''<model xmlns:p="p"><resources><object id="1"></object><object id="2"></object>''
              @ ''\<newline>  <object id="3" type="model" name="Lumina_Model">''
              @ ''\<newline>    <components>''
              @ ''\<newline>      <component objectid="1" />''
              @ ''\<newline>      <component objectid="2" />''
              @ ''\<newline>    </components>''
              @ ''\<newline>  </object>\<newline></resources>''
              @ ''<build p:UUID="b"><item objectid="1"/></build></model>''
      = (case Some 78 of
           None \<Rightarrow> fix_names [] build_with_attribute_xml
         | Some k \<Rightarrow> take k (fix_names [] build_with_attribute_xml)
             @ (''\<newline>  <object id="3" type="model" name="Lumina_Model">''
                @ ''\<newline>    <components>''
                @ ''\<newline>      <component objectid="1" />''
                @ ''\<newline>      <component objectid="2" />''
                @ ''\<newline>    </components>''
                @ ''\<newline>  </object>\<newline>'')
             @ drop k (fix_names [] build_with_attribute_xml))\<close>
    unfolding names build_with_attribute_xml_def by code_simp
  have bs: \<open>build_search (''<model xmlns:p="p"><resources><object id="1"></object><object id="2"></object>''
              @ ''\<newline>  <object id="3" type="model" name="Lumina_Model">''
              @ ''\<newline>    <components>''
              @ ''\<newline>      <component objectid="1" />''
              @ ''\<newline>      <component objectid="2" />''
              @ ''\<newline>    </components>''
              @ ''\<newline>  </object>\<newline></resources>''
              @ ''<build p:UUID="b"><item objectid="1"/></build></model>'') = None\<close>
    by code_simp
  from fix_model_text_assembly [OF h ints axml res c2 bs] h show ?thesis by simp
qed

section \<open>The textual pass does not keep the text well-formed\<close>

text \<open>
  C7. The name-fixed text of a well-formed model text is not always well-formed: a
  self-closing object tag gets the new name attribute after its slash, and a tag whose
  name attribute is written with single quotes gets a second name attribute.
\<close>

theorem self_closing_object_tag_broken:
  \<open>fix_model_text [''Red''] False ''<model><resources><object id="1"/></resources></model>''
     = Inr ''<model><resources><object id="1"/ name="Red"></resources></model>''
   \<and> fix_model_text [''Red''] False ''<model><resources><object id="1" name='a'></object></resources></model>''
     = Inr ''<model><resources><object id="1" name='a' name="Red"></object></resources></model>''\<close>
  by code_simp

section \<open>Colorgroup insertion\<close>

lemma first_index_Some:
  "first_index P xs = Some i \<Longrightarrow> i < length xs \<and> P (xs ! i) \<and> (\<forall>j<i. \<not> P (xs ! j))"
proof (induction xs arbitrary: i)
  case Nil
  then show ?case by simp
next
  case (Cons x xs)
  show ?case
  proof (cases "P x")
    case True
    with Cons.prems show ?thesis by simp
  next
    case False
    with Cons.prems obtain i' where i': "first_index P xs = Some i'" "i = Suc i'" by auto
    from Cons.IH [OF i'(1)] have ih: "i' < length xs" "P (xs ! i')" "\<forall>j<i'. \<not> P (xs ! j)" by auto
    have "\<not> P ((x # xs) ! j)" if "j < i" for j
      using that False ih(3) i'(2) by (cases j) auto
    with ih i'(2) show ?thesis by simp
  qed
qed

lemma first_index_None: "first_index P xs = None \<longleftrightarrow> (\<forall>x \<in> set xs. \<not> P x)"
  by (induction xs) auto

lemma fold_list_insert:
  "k \<le> length cs \<Longrightarrow> fold (list_insert k) (rev xs) cs = take k cs @ xs @ drop k cs"
proof (induction xs arbitrary: cs rule: rev_induct)
  case Nil
  then show ?case by simp
next
  case (snoc x xs)
  have "fold (list_insert k) (rev (xs @ [x])) cs = fold (list_insert k) (rev xs) (list_insert k x cs)"
    by simp
  also have "\<dots> = take k (list_insert k x cs) @ xs @ drop k (list_insert k x cs)"
    using snoc.prems by (intro snoc.IH) (simp add: list_insert_def)
  also have "\<dots> = take k cs @ (xs @ [x]) @ drop k cs"
    using snoc.prems by (simp add: list_insert_def)
  finally show ?case .
qed

lemma fold_append_each: "fold (\<lambda>x cs. cs @ [x]) xs cs = cs @ xs"
  by (induction xs arbitrary: cs) simp_all

lemma colorgroup_elements_eq:
  "map (\<lambda>(color_name, color_value).
          new_colorgroup (get_colorgroup_id color_name color_mode) color_value)
       (if color_mode = ''cmyw'' then CMYW_COLORS else RYBW_COLORS)
     = colorgroups_of color_mode"
  by (simp add: colorgroups_of_def CMYW_COLORS_def RYBW_COLORS_def get_colorgroup_id_def dict_get_def)

lemma colorgroup_map_eq:
  "snd (insert_colorgroups resources color_mode)
     = (if color_mode = ''cmyw''
        then [(''Cyan'', ''1''), (''Magenta'', ''2''), (''Yellow'', ''3''), (''White'', ''4'')]
        else [(''Red'', ''1''), (''Yellow'', ''2''), (''Blue'', ''3''), (''White'', ''4'')])"
  by (simp add: insert_colorgroups_def Let_def CMYW_COLORS_def RYBW_COLORS_def
      get_colorgroup_id_def dict_get_def)

lemma insert_colorgroups_before_object:
  assumes "first_index (local_name_is ''object'') (children resources) = Some k"
  shows "fst (insert_colorgroups resources color_mode)
           = set_children resources
               (take k (children resources) @ colorgroups_of color_mode @ drop k (children resources))"
proof -
  from first_index_Some [OF assms] have k: "k \<le> length (children resources)" by simp
  have "(\<lambda>colorgroup cs. case Some k of Some i \<Rightarrow> list_insert i colorgroup cs | None \<Rightarrow> cs @ [colorgroup])
          = list_insert k" by (intro ext) simp
  then show ?thesis
    unfolding insert_colorgroups_def Let_def assms colorgroup_elements_eq
    by (simp add: fold_list_insert [OF k])
qed

lemma insert_colorgroups_without_object:
  assumes "first_index (local_name_is ''object'') (children resources) = None"
  shows "fst (insert_colorgroups resources color_mode)
           = set_children resources (children resources @ rev (colorgroups_of color_mode))"
  unfolding insert_colorgroups_def Let_def assms colorgroup_elements_eq
  by (simp add: fold_append_each)

text \<open>
  C2. With an object child present the colorgroups stand, in palette order, right
  before the first object child (\<open>insert_colorgroups_before_object\<close>). Without
  an object child the reversed loop appends them one by one, so they end up in reverse
  palette order: on an empty resources element in mode rybw the children are the
  colorgroups 4 (White), 3 (Blue), 2 (Yellow), 1 (Red).
\<close>

theorem colorgroups_appended_in_reverse:
  "insert_colorgroups (Element ''resources'' [] None None []) ''rybw''
     = (Element ''resources'' [] None None
          [new_colorgroup ''4'' ''#FFFFFFFF'', new_colorgroup ''3'' ''#0000FFFF'',
           new_colorgroup ''2'' ''#FFFF00FF'', new_colorgroup ''1'' ''#FF0000FF''],
        [(''Red'', ''1''), (''Yellow'', ''2''), (''Blue'', ''3''), (''White'', ''4'')])"
proof -
  have "first_index (local_name_is ''object'') (children (Element ''resources'' [] None None [])) = None"
    by simp
  from insert_colorgroups_without_object [OF this, of "''rybw''"]
  have "fst (insert_colorgroups (Element ''resources'' [] None None []) ''rybw'')
          = Element ''resources'' [] None None
          [new_colorgroup ''4'' ''#FFFFFFFF'', new_colorgroup ''3'' ''#0000FFFF'',
           new_colorgroup ''2'' ''#FFFF00FF'', new_colorgroup ''1'' ''#FF0000FF'']"
    by (simp add: colorgroups_of_def set_children_def)
  moreover have "snd (insert_colorgroups (Element ''resources'' [] None None []) ''rybw'')
     = [(''Red'', ''1''), (''Yellow'', ''2''), (''Blue'', ''3''), (''White'', ''4'')]"
    by (simp add: colorgroup_map_eq)
  ultimately show ?thesis by (simp add: prod_eq_iff)
qed

section \<open>Triangle and build item tagging\<close>

lemma local_name_is_set_children [simp]: "local_name_is nm (set_children el cs) = local_name_is nm el"
  by (simp add: local_name_is_def set_children_def)

lemma children_set_children [simp]: "children (set_children el cs) = cs"
  by (simp add: set_children_def)

lemma first_index_update:
  "first_index P xs = Some i \<Longrightarrow> P y \<Longrightarrow> first_index P (xs[i := y]) = Some i"
proof (induction xs arbitrary: i)
  case Nil
  then show ?case by simp
next
  case (Cons x xs)
  show ?case
  proof (cases "P x")
    case True
    with Cons.prems show ?thesis by simp
  next
    case False
    with Cons.prems obtain i' where i': "first_index P xs = Some i'" "i = Suc i'" by auto
    from Cons.IH [OF i'(1) Cons.prems(2)] False i'(2) show ?thesis by simp
  qed
qed

lemma get_attr_set_attr: "get_attr (set_attr el k v) k' = (if k' = k then Some v else get_attr el k')"
  by (simp add: get_attr_def set_attr_def update_conv')

lemma color_object_None: "color_object cid el = None \<longleftrightarrow> triangles_of el = None"
  by (simp add: color_object_def triangles_of_def Let_def split: option.splits)

lemma color_object_Some:
  assumes "triangles_of el = Some tr"
  shows "\<exists>el'. color_object cid el
                  = Some (el', length (filter (local_name_is ''triangle'') (children tr)))
           \<and> triangles_of el'
                = Some (set_children tr (map (color_triangle cid) (children tr)))"
proof -
  from assms obtain mi ti where
    mi: "first_index (local_name_is ''mesh'') (children el) = Some mi" and
    ti: "first_index (local_name_is ''triangles'') (children (children el ! mi)) = Some ti" and
    tr: "tr = children (children el ! mi) ! ti"
    by (auto simp: triangles_of_def split: option.splits)
  define mesh where "mesh = children el ! mi"
  define tr' where "tr' = set_children tr (map (color_triangle cid) (children tr))"
  define mesh' where "mesh' = set_children mesh ((children mesh)[ti := tr'])"
  define el' where "el' = set_children el ((children el)[mi := mesh'])"
  from first_index_Some [OF mi] have mi_lt: "mi < length (children el)"
    and mesh_ok: "local_name_is ''mesh'' mesh" by (auto simp: mesh_def)
  from first_index_Some [OF ti] have ti_lt: "ti < length (children mesh)"
    and tr_ok: "local_name_is ''triangles'' tr" by (auto simp: mesh_def tr)
  have co: "color_object cid el
              = Some (el', length (filter (local_name_is ''triangle'') (children tr)))"
    using mi ti by (simp add: color_object_def Let_def el'_def mesh'_def tr'_def mesh_def tr)
  have m1: "first_index (local_name_is ''mesh'') (children el') = Some mi"
    unfolding el'_def using first_index_update [OF mi, of mesh'] mesh_ok
    by (simp add: mesh'_def)
  have c1: "children el' ! mi = mesh'"
    using mi_lt by (simp add: el'_def)
  have t1: "first_index (local_name_is ''triangles'') (children mesh') = Some ti"
    unfolding mesh'_def using first_index_update [of _ "children mesh" ti tr'] ti tr_ok
    by (simp add: tr'_def mesh_def)
  have c2: "children mesh' ! ti = tr'"
    using ti_lt by (simp add: mesh'_def)
  have "triangles_of el' = Some tr'"
    by (simp add: triangles_of_def m1 c1 t1 c2)
  with co show ?thesis unfolding tr'_def by blast
qed

lemma add_triangle_colors_loop_map:
  "fst (add_triangle_colors_loop objs m stats) = map (tag_object m) objs"
proof (induction objs arbitrary: stats)
  case Nil
  then show ?case by simp
next
  case (Cons a objs)
  have ih: "fst (add_triangle_colors_loop objs m st) = map (tag_object m) objs" for st
    by (rule Cons.IH)
  show ?case
    by (simp add: tag_object_def Let_def case_prod_beta ih split: option.splits)
qed

lemma add_triangle_colors_map: "fst (add_triangle_colors objs m) = map (tag_object m) objs"
  by (simp add: add_triangle_colors_def add_triangle_colors_loop_map)

lemma tag_item_cases:
  assumes "\<not> has_key [] m"
  shows "case (if local_name_is ''item'' item then get_attr item ''partnumber'' else None) of
           Some p \<Rightarrow> (case map_of m p of
                        Some mid \<Rightarrow> tag_item m item = set_attr item ''materialid'' mid
                                     \<and> get_attr (tag_item m item) ''materialid'' = Some mid
                      | None \<Rightarrow> tag_item m item = item)
         | None \<Rightarrow> tag_item m item = item"
proof -
  from assms have e: "map_of m [] = None"
    by (simp add: has_key_def map_of_eq_None_iff)
  show ?thesis
    by (auto simp: tag_item_def dict_get_def get_attr_def Let_def e get_attr_set_attr [unfolded get_attr_def]
             split: option.splits)
qed

text \<open>
  C4. For a name-to-id mapping without the empty key (the mappings that
  \<open>insert_colorgroups\<close> returns have none): \<open>add_triangle_colors\<close> returns
  the catalog with, for every entry that is no assembly, whose name is a key and whose
  element has a triangles element, that triangles element changed in every direct
  triangle child to carry pid equal to the mapped id and p1 equal to 0, other children
  kept; every other entry is returned as it was. \<open>add_build_materials\<close> returns
  the root unchanged with empty statistics when there is no build element; otherwise
  it changes only the children of the first build element: an item whose partnumber
  attribute is a key gets materialid set to the mapped id, every other child is kept.
\<close>

theorem tagging_by_name:
  assumes "\<not> has_key [] m"
  shows "length (fst (add_triangle_colors objects m)) = length objects
   \<and> (\<forall>i<length objects. \<forall>cid tr.
        \<not> info_is_assembly (objects ! i) \<longrightarrow> map_of m (info_name (objects ! i)) = Some cid \<longrightarrow>
        triangles_of (info_element (objects ! i)) = Some tr \<longrightarrow>
          (\<exists>tr'. triangles_of (info_element (fst (add_triangle_colors objects m) ! i)) = Some tr'
              \<and> length (children tr') = length (children tr)
              \<and> (\<forall>j<length (children tr).
                    if local_name_is ''triangle'' (children tr ! j)
                    then get_attr (children tr' ! j) ''pid'' = Some cid
                         \<and> get_attr (children tr' ! j) ''p1'' = Some ''0''
                         \<and> children tr' ! j = set_attr (set_attr (children tr ! j) ''pid'' cid) ''p1'' ''0''
                    else children tr' ! j = children tr ! j)))
   \<and> (\<forall>i<length objects.
        info_is_assembly (objects ! i) \<or> map_of m (info_name (objects ! i)) = None
        \<or> triangles_of (info_element (objects ! i)) = None \<longrightarrow>
          fst (add_triangle_colors objects m) ! i = objects ! i)
   \<and> (first_index (local_name_is ''build'') (children root) = None \<longrightarrow>
        add_build_materials root m = (root, []))
   \<and> (\<forall>bi. first_index (local_name_is ''build'') (children root) = Some bi \<longrightarrow>
        (\<exists>build'. fst (add_build_materials root m) = set_children root ((children root)[bi := build'])
            \<and> build' = set_children (children root ! bi) (children build')
            \<and> length (children build') = length (children (children root ! bi))
            \<and> (\<forall>j<length (children (children root ! bi)).
                 case (if local_name_is ''item'' (children (children root ! bi) ! j)
                       then get_attr (children (children root ! bi) ! j) ''partnumber'' else None) of
                   Some p \<Rightarrow>
                     (case map_of m p of
                        Some mid \<Rightarrow>
                          children build' ! j = set_attr (children (children root ! bi) ! j) ''materialid'' mid
                          \<and> get_attr (children build' ! j) ''materialid'' = Some mid
                      | None \<Rightarrow> children build' ! j = children (children root ! bi) ! j)
                 | None \<Rightarrow> children build' ! j = children (children root ! bi) ! j)))"
proof (intro conjI allI impI)
  show "length (fst (add_triangle_colors objects m)) = length objects"
    by (simp add: add_triangle_colors_map)
next
  fix i cid tr
  assume i: "i < length objects" and na: "\<not> info_is_assembly (objects ! i)"
    and cid: "map_of m (info_name (objects ! i)) = Some cid"
    and tr: "triangles_of (info_element (objects ! i)) = Some tr"
  from color_object_Some [OF tr, of cid] obtain el' where
    co: "color_object cid (info_element (objects ! i))
           = Some (el', length (filter (local_name_is ''triangle'') (children tr)))" and
    tr': "triangles_of el' = Some (set_children tr (map (color_triangle cid) (children tr)))"
    by blast
  have res: "info_element (fst (add_triangle_colors objects m) ! i) = el'"
    using i na cid co by (simp add: add_triangle_colors_map tag_object_def)
  let ?tr' = "set_children tr (map (color_triangle cid) (children tr))"
  have "\<forall>j<length (children tr).
          if local_name_is ''triangle'' (children tr ! j)
          then get_attr (children ?tr' ! j) ''pid'' = Some cid
               \<and> get_attr (children ?tr' ! j) ''p1'' = Some ''0''
               \<and> children ?tr' ! j = set_attr (set_attr (children tr ! j) ''pid'' cid) ''p1'' ''0''
          else children ?tr' ! j = children tr ! j"
    by (simp add: color_triangle_def get_attr_set_attr)
  moreover have "length (children ?tr') = length (children tr)" by simp
  ultimately show "\<exists>tr'. triangles_of (info_element (fst (add_triangle_colors objects m) ! i)) = Some tr'
              \<and> length (children tr') = length (children tr)
              \<and> (\<forall>j<length (children tr).
                    if local_name_is ''triangle'' (children tr ! j)
                    then get_attr (children tr' ! j) ''pid'' = Some cid
                         \<and> get_attr (children tr' ! j) ''p1'' = Some ''0''
                         \<and> children tr' ! j = set_attr (set_attr (children tr ! j) ''pid'' cid) ''p1'' ''0''
                    else children tr' ! j = children tr ! j)"
    using tr' res by blast
next
  fix i
  assume i: "i < length objects"
    and skip: "info_is_assembly (objects ! i) \<or> map_of m (info_name (objects ! i)) = None
        \<or> triangles_of (info_element (objects ! i)) = None"
  have "color_object cid (info_element (objects ! i)) = None"
    if "triangles_of (info_element (objects ! i)) = None" for cid
    using that by (simp add: color_object_None)
  then have "tag_object m (objects ! i) = objects ! i"
    using skip by (auto simp: tag_object_def split: option.splits)
  then show "fst (add_triangle_colors objects m) ! i = objects ! i"
    using i by (simp add: add_triangle_colors_map)
next
  assume "first_index (local_name_is ''build'') (children root) = None"
  then show "add_build_materials root m = (root, [])"
    by (simp add: add_build_materials_def)
next
  fix bi
  assume bi: "first_index (local_name_is ''build'') (children root) = Some bi"
  define build where "build = children root ! bi"
  define build' where "build' = set_children build (map (tag_item m) (children build))"
  have 1: "fst (add_build_materials root m) = set_children root ((children root)[bi := build'])"
    using bi by (simp add: add_build_materials_def Let_def build'_def build_def)
  have 2: "build' = set_children (children root ! bi) (children build')"
    by (simp add: build'_def build_def set_children_def)
  have 3: "length (children build') = length (children (children root ! bi))"
    by (simp add: build'_def build_def)
  have 4: "case (if local_name_is ''item'' (children (children root ! bi) ! j)
                       then get_attr (children (children root ! bi) ! j) ''partnumber'' else None) of
                   Some p \<Rightarrow>
                     (case map_of m p of
                        Some mid \<Rightarrow>
                          children build' ! j = set_attr (children (children root ! bi) ! j) ''materialid'' mid
                          \<and> get_attr (children build' ! j) ''materialid'' = Some mid
                      | None \<Rightarrow> children build' ! j = children (children root ! bi) ! j)
                 | None \<Rightarrow> children build' ! j = children (children root ! bi) ! j"
    if "j < length (children (children root ! bi))" for j
  proof -
    have e: "children build' ! j = tag_item m (children (children root ! bi) ! j)"
      using that by (simp add: build'_def build_def)
    show ?thesis unfolding e by (rule tag_item_cases [OF assms])
  qed
  from 1 2 3 4 show "\<exists>build'. fst (add_build_materials root m) = set_children root ((children root)[bi := build'])
            \<and> build' = set_children (children root ! bi) (children build')
            \<and> length (children build') = length (children (children root ! bi))
            \<and> (\<forall>j<length (children (children root ! bi)).
                 case (if local_name_is ''item'' (children (children root ! bi) ! j)
                       then get_attr (children (children root ! bi) ! j) ''partnumber'' else None) of
                   Some p \<Rightarrow>
                     (case map_of m p of
                        Some mid \<Rightarrow>
                          children build' ! j = set_attr (children (children root ! bi) ! j) ''materialid'' mid
                          \<and> get_attr (children build' ! j) ''materialid'' = Some mid
                      | None \<Rightarrow> children build' ! j = children (children root ! bi) ! j)
                 | None \<Rightarrow> children build' ! j = children (children root ! bi) ! j)"
    by blast
qed

text \<open>
  The theorem at the object named Red and the item with part number White, with the
  mapping of mode rybw: the triangle carries pid 1 and p1 0, the item materialid 4.
\<close>

theorem tagging_by_name_witness:
  "\<not> has_key [] (snd (insert_colorgroups (Element ''resources'' [] None None []) ''rybw''))
   \<and> (\<exists>tr'. triangles_of (info_element
                  (fst (add_triangle_colors [catalog_entry red_object]
                         (snd (insert_colorgroups (Element ''resources'' [] None None []) ''rybw''))) ! 0))
                = Some tr'
            \<and> get_attr (children tr' ! 0) ''pid'' = Some ''1''
            \<and> get_attr (children tr' ! 0) ''p1'' = Some ''0'')
   \<and> (\<exists>build'. fst (add_build_materials white_item_root
                        (snd (insert_colorgroups (Element ''resources'' [] None None []) ''rybw'')))
                  = set_children white_item_root ((children white_item_root)[0 := build'])
            \<and> get_attr (children build' ! 0) ''materialid'' = Some ''4'')"
proof -
  define m where "m = snd (insert_colorgroups (Element ''resources'' [] None None []) ''rybw'')"
  have m: "m = [(''Red'', ''1''), (''Yellow'', ''2''), (''Blue'', ''3''), (''White'', ''4'')]"
    by (simp add: m_def colorgroup_map_eq)
  have h: "\<not> has_key [] m" by (simp add: m has_key_def)
  note T = tagging_by_name [OF h, of "[catalog_entry red_object]" white_item_root]
  have a1: "\<not> info_is_assembly ([catalog_entry red_object] ! 0)"
    by (simp add: catalog_entry_def red_object_def is_assembly_def find_path_def local_name_is_def)
  have a2: "map_of m (info_name ([catalog_entry red_object] ! 0)) = Some ''1''"
    by (simp add: catalog_entry_def red_object_def dict_get_def m)
  have a3: "triangles_of (info_element ([catalog_entry red_object] ! 0))
              = Some (Element ''triangles'' [] None None
             [Element ''triangle'' [(''v1'', ''0''), (''v2'', ''1''), (''v3'', ''2'')] None None []])"
    by (simp add: catalog_entry_def red_object_def triangles_of_def local_name_is_def)
  have l: "0 < length [catalog_entry red_object]" by simp
  note T2 = T [THEN conjunct2, THEN conjunct1, rule_format, OF l a1 a2 a3]
  then obtain tr' where
    tr': "triangles_of (info_element (fst (add_triangle_colors [catalog_entry red_object] m) ! 0)) = Some tr'"
    and all: "\<forall>j<length (children (Element ''triangles'' [] None None
             [Element ''triangle'' [(''v1'', ''0''), (''v2'', ''1''), (''v3'', ''2'')] None None []])).
                    if local_name_is ''triangle'' (children (Element ''triangles'' [] None None
             [Element ''triangle'' [(''v1'', ''0''), (''v2'', ''1''), (''v3'', ''2'')] None None []]) ! j)
                    then get_attr (children tr' ! j) ''pid'' = Some ''1''
                         \<and> get_attr (children tr' ! j) ''p1'' = Some ''0''
                         \<and> children tr' ! j = set_attr (set_attr (children (Element ''triangles'' [] None None
             [Element ''triangle'' [(''v1'', ''0''), (''v2'', ''1''), (''v3'', ''2'')] None None []]) ! j) ''pid'' ''1'') ''p1'' ''0''
                    else children tr' ! j = children (Element ''triangles'' [] None None
             [Element ''triangle'' [(''v1'', ''0''), (''v2'', ''1''), (''v3'', ''2'')] None None []]) ! j"
    by (elim exE conjE)
  from all have tri: "get_attr (children tr' ! 0) ''pid'' = Some ''1''
                         \<and> get_attr (children tr' ! 0) ''p1'' = Some ''0''"
    by (simp add: local_name_is_def get_attr_set_attr)
  have b1: "first_index (local_name_is ''build'') (children white_item_root) = Some 0"
    by (simp add: white_item_root_def local_name_is_def)
  note T5 = T [THEN conjunct2, THEN conjunct2, THEN conjunct2, THEN conjunct2, rule_format, OF b1]
  then obtain build' where
    b': "fst (add_build_materials white_item_root m)
           = set_children white_item_root ((children white_item_root)[0 := build'])"
    and items: "\<forall>j<length (children (children white_item_root ! 0)).
                 case (if local_name_is ''item'' (children (children white_item_root ! 0) ! j)
                       then get_attr (children (children white_item_root ! 0) ! j) ''partnumber'' else None) of
                   Some p \<Rightarrow>
                     (case map_of m p of
                        Some mid \<Rightarrow>
                          children build' ! j = set_attr (children (children white_item_root ! 0) ! j) ''materialid'' mid
                          \<and> get_attr (children build' ! j) ''materialid'' = Some mid
                      | None \<Rightarrow> children build' ! j = children (children white_item_root ! 0) ! j)
                 | None \<Rightarrow> children build' ! j = children (children white_item_root ! 0) ! j"
    by (elim exE conjE)
  from items have "get_attr (children build' ! 0) ''materialid'' = Some ''4''"
    by (simp add: white_item_root_def local_name_is_def get_attr_def m set_attr_def)
  with b' tr' tri h show ?thesis unfolding m_def by blast
qed

section \<open>The archive around the model entry\<close>

lemma find_skip_false: "\<not> P x \<Longrightarrow> List.find P (ks @ x # ys) = List.find P (ks @ ys)"
  by (induction ks) auto

lemma find_in_front: "x \<in> set ks \<Longrightarrow> P x \<Longrightarrow> List.find P (ks @ zs) = List.find P ks"
  by (induction ks) auto

lemma find_skip_known: "x \<in> set ks \<Longrightarrow> List.find P (ks @ x # ys) = List.find P (ks @ ys)"
proof (cases "P x")
  case True
  assume m: "x \<in> set ks"
  have "List.find P (ks @ x # ys) = List.find P ks" using m True by (rule find_in_front)
  moreover have "List.find P (ks @ ys) = List.find P ks" using m True by (rule find_in_front)
  ultimately show ?thesis by simp
next
  case False
  then show ?thesis by (rule find_skip_false)
qed

lemma map_fst_update:
  "map fst (AList.update k v al) = (if k \<in> fst ` set al then map fst al else map fst al @ [k])"
  by (induction al) auto

lemma read_entries_result:
  assumes "set names \<subseteq> fst ` set ar"
  shows "\<exists>fd'. read_entries ar names fd = Inr fd'
           \<and> map_of fd' = (\<lambda>n. if n \<in> set names then map_of (rev ar) n else map_of fd n)
           \<and> (distinct (map fst fd) \<longrightarrow> distinct (map fst fd'))
           \<and> (\<forall>P. List.find P (map fst fd') = List.find P (map fst fd @ names))"
  using assms
proof (induction names arbitrary: fd)
  case Nil
  then show ?case by simp
next
  case (Cons name names)
  from Cons.prems have "name \<in> fst ` set (rev ar)" by simp
  then obtain d where d: "map_of (rev ar) name = Some d"
    by (metis map_of_eq_None_iff not_Some_eq)
  let ?fd = "AList.update name d fd"
  from Cons.prems have "set names \<subseteq> fst ` set ar" by simp
  from Cons.IH [OF this, of ?fd] obtain fd' where
    r: "read_entries ar names ?fd = Inr fd'" and
    m: "map_of fd' = (\<lambda>n. if n \<in> set names then map_of (rev ar) n else map_of ?fd n)" and
    di: "distinct (map fst ?fd) \<longrightarrow> distinct (map fst fd')" and
    fi: "\<forall>P. List.find P (map fst fd') = List.find P (map fst ?fd @ names)"
    by blast
  have 1: "read_entries ar (name # names) fd = Inr fd'"
    using d r by (simp add: zf_read_def)
  have 2: "map_of fd' = (\<lambda>n. if n \<in> set (name # names) then map_of (rev ar) n else map_of fd n)"
    using d by (auto simp: m update_conv' fun_eq_iff)
  have 3: "distinct (map fst fd) \<longrightarrow> distinct (map fst fd')"
    using di by (simp add: distinct_update)
  have 4: "List.find P (map fst fd') = List.find P (map fst fd @ name # names)" for P
  proof (cases "name \<in> fst ` set fd")
    case True
    then have "name \<in> set (map fst fd)" by simp
    from find_skip_known [OF this] True fi show ?thesis by (simp add: map_fst_update)
  next
    case False
    with fi show ?thesis by (simp add: map_fst_update)
  qed
  from 1 2 3 4 show ?case by blast
qed

lemma map_of_rev_distinct: "distinct (map fst xs) \<Longrightarrow> map_of (rev xs) = map_of xs"
proof (rule ext)
  fix k
  assume d: "distinct (map fst xs)"
  then have d': "distinct (map fst (rev xs))" by (simp add: rev_map [symmetric])
  show "map_of (rev xs) k = map_of xs k"
  proof (cases "map_of xs k")
    case None
    then have "k \<notin> fst ` set (rev xs)" by (simp add: map_of_eq_None_iff)
    then have "map_of (rev xs) k = None" unfolding map_of_eq_None_iff .
    then show ?thesis using None by simp
  next
    case (Some v)
    then have "(k, v) \<in> set (rev xs)" using d by simp
    then show ?thesis using Some d' by simp
  qed
qed

lemma read_entries_distinct_id:
  "distinct (map fst ar) \<Longrightarrow> read_entries ar' (map fst ar) fd = Inr fd' \<Longrightarrow>
   set (map fst fd) \<inter> set (map fst ar) = {} \<Longrightarrow> (\<forall>(n, d) \<in> set ar. zf_read ar' n = Inr d) \<Longrightarrow>
   fd' = fd @ ar"
proof (induction ar arbitrary: fd)
  case Nil
  then show ?case by simp
next
  case (Cons x ar)
  obtain n d where x: "x = (n, d)" by (cases x)
  from Cons.prems(4) have z: "zf_read ar' n = Inr d" by (simp add: x)
  from Cons.prems(3) have nf: "n \<notin> fst ` set fd" by (auto simp: x)
  have upd: "AList.update n d fd = fd @ [(n, d)]"
    using nf by (induction fd) auto
  from Cons.prems(2) have r: "read_entries ar' (map fst ar) (fd @ [(n, d)]) = Inr fd'"
    by (simp add: x z upd)
  have "fd' = (fd @ [(n, d)]) @ ar"
  proof (rule Cons.IH [OF _ r])
    show "distinct (map fst ar)" using Cons.prems(1) by simp
    show "set (map fst (fd @ [(n, d)])) \<inter> set (map fst ar) = {}"
      using Cons.prems(1,3) by (auto simp: x)
    show "\<forall>(n, d)\<in>set ar. zf_read ar' n = Inr d" using Cons.prems(4) by simp
  qed
  then show ?case by (simp add: x)
qed

lemma read_archive:
  "\<exists>fd. read_entries ar (map fst ar) [] = Inr fd
        \<and> map_of fd = map_of (rev ar)
        \<and> distinct (map fst fd)
        \<and> (\<forall>P. List.find P (map fst fd) = List.find P (map fst ar))
        \<and> (distinct (map fst ar) \<longrightarrow> fd = ar)"
proof -
  have "set (map fst ar) \<subseteq> fst ` set ar" by simp
  from read_entries_result [OF this, of "[]"] obtain fd where
    r: "read_entries ar (map fst ar) [] = Inr fd" and
    m: "map_of fd = (\<lambda>n. if n \<in> set (map fst ar) then map_of (rev ar) n else map_of [] n)" and
    d: "distinct (map fst fd)" and
    f: "\<forall>P. List.find P (map fst fd) = List.find P (map fst ar)"
    by auto
  have m': "map_of fd = map_of (rev ar)"
  proof (rule ext)
    fix n
    show "map_of fd n = map_of (rev ar) n"
    proof (cases "n \<in> set (map fst ar)")
      case True
      then show ?thesis by (simp add: m)
    next
      case False
      then have "map_of (rev ar) n = None" by (simp add: map_of_eq_None_iff)
      with False show ?thesis by (simp add: m)
    qed
  qed
  have "fd = ar" if dis: "distinct (map fst ar)"
  proof -
    have "\<forall>(n, d)\<in>set ar. zf_read ar n = Inr d"
      using dis by (auto simp: zf_read_def map_of_rev_distinct)
    from read_entries_distinct_id [OF dis r _ this] show ?thesis by simp
  qed
  with r m' d f show ?thesis by blast
qed


lemma process_model_cases:
  "(\<exists>e. process_model lib fd mf slot_names ca ec cm = Inl e)
   \<or> process_model lib fd mf slot_names ca ec cm = Inr fd
   \<or> (\<exists>x. process_model lib fd mf slot_names ca ec cm = Inr (AList.update mf x fd))"
  by (auto simp: process_model_def Let_def split: option.splits sum.splits)

lemma fix_3mf_names_try_cases:
  assumes "read_entries ar (map fst ar) [] = Inr fd"
  shows "(\<exists>e. fix_3mf_names_try lib (Some ar) slot_names ca ec cm = Inl e)
   \<or> fix_3mf_names_try lib (Some ar) slot_names ca ec cm = Inr fd
   \<or> (\<exists>mf x. find_model_file fd = Some mf
          \<and> fix_3mf_names_try lib (Some ar) slot_names ca ec cm = Inr (AList.update mf x fd))"
proof (cases "find_model_file fd")
  case None
  then show ?thesis using assms by (simp add: fix_3mf_names_try_def open_archive_def)
next
  case (Some mf)
  show ?thesis
  proof (cases "mf \<noteq> [] \<and> has_key mf fd")
    case True
    then have "fix_3mf_names_try lib (Some ar) slot_names ca ec cm
                 = process_model lib fd mf slot_names ca ec cm"
      using assms Some by (simp add: fix_3mf_names_try_def open_archive_def)
    with process_model_cases [of lib fd mf slot_names ca ec cm] Some show ?thesis by auto
  next
    case False
    then have "fix_3mf_names_try lib (Some ar) slot_names ca ec cm = Inr fd"
      using assms Some by (auto simp: fix_3mf_names_try_def open_archive_def)
    then show ?thesis by simp
  qed
qed

lemma zf_read_distinct:
  "distinct (map fst out) \<Longrightarrow>
   zf_read out n = (case map_of out n of None \<Rightarrow> Inl (KeyError n) | Some d \<Rightarrow> Inr d)"
  by (simp add: zf_read_def map_of_rev_distinct)

text \<open>
  C9. For every archive that can be read, \<open>safe_fix_3mf_names\<close> leaves an
  archive in which every name other than that of the model entry reads to the same
  bytes as before; when the names of the input are distinct (an archive is a mapping
  from entry names to bytes), every (name, content) entry other than the model entry
  is an entry of the output. This holds on every path through the function: when the
  body raises, nothing is written and the archive stays as it was.
\<close>

theorem auxiliary_entries_kept:
  "\<exists>out. safe_fix_3mf_names lib (Some ar) slot_names create_assembly enable_colors color_mode
             = Inr (Some out)
     \<and> (\<forall>n d. List.find is_model_name (map fst ar) \<noteq> Some n \<longrightarrow> zf_read ar n = Inr d \<longrightarrow>
               zf_read out n = Inr d)
     \<and> (distinct (map fst ar) \<longrightarrow>
          (\<forall>n d. List.find is_model_name (map fst ar) \<noteq> Some n \<longrightarrow> (n, d) \<in> set ar \<longrightarrow>
                 (n, d) \<in> set out))"
proof -
  from read_archive [of ar] obtain fd where
    r: "read_entries ar (map fst ar) [] = Inr fd" and
    m: "map_of fd = map_of (rev ar)" and
    d: "distinct (map fst fd)" and
    f: "\<forall>P. List.find P (map fst fd) = List.find P (map fst ar)" and
    i: "distinct (map fst ar) \<longrightarrow> fd = ar"
    by blast
  let ?attempt = "fix_3mf_names_try lib (Some ar) slot_names create_assembly enable_colors color_mode"
  let ?P = "\<lambda>out. (\<forall>n d. List.find is_model_name (map fst ar) \<noteq> Some n \<longrightarrow> zf_read ar n = Inr d \<longrightarrow>
               zf_read out n = Inr d)
     \<and> (distinct (map fst ar) \<longrightarrow>
          (\<forall>n d. List.find is_model_name (map fst ar) \<noteq> Some n \<longrightarrow> (n, d) \<in> set ar \<longrightarrow>
                 (n, d) \<in> set out))"
  have keep: "?P out" if out: "distinct (map fst out)"
    "\<And>n. List.find is_model_name (map fst ar) \<noteq> Some n \<Longrightarrow> map_of out n = map_of (rev ar) n" for out
  proof (intro conjI allI impI)
    fix n dd
    assume nm: "List.find is_model_name (map fst ar) \<noteq> Some n" and z: "zf_read ar n = Inr dd"
    from z have "map_of (rev ar) n = Some dd"
      by (simp add: zf_read_def split: option.splits)
    with out(2) [OF nm] have "map_of out n = Some dd" by simp
    then show "zf_read out n = Inr dd"
      by (simp add: zf_read_distinct [OF out(1)])
  next
    fix n dd
    assume dis: "distinct (map fst ar)" and nm: "List.find is_model_name (map fst ar) \<noteq> Some n"
      and mem: "(n, dd) \<in> set ar"
    from dis mem have "map_of (rev ar) n = Some dd" by (simp add: map_of_rev_distinct)
    with out(2) [OF nm] have "map_of out n = Some dd" by simp
    then show "(n, dd) \<in> set out" by (rule map_of_SomeD)
  qed
  from fix_3mf_names_try_cases [OF r, of lib slot_names create_assembly enable_colors color_mode]
  consider e where "?attempt = Inl e" | "?attempt = Inr fd"
    | mf x where "find_model_file fd = Some mf" "?attempt = Inr (AList.update mf x fd)"
    by blast
  then show ?thesis
  proof cases
    case 1
    then have "safe_fix_3mf_names lib (Some ar) slot_names create_assembly enable_colors color_mode
                 = Inr (Some ar)"
      by (simp add: safe_fix_3mf_names_def)
    moreover have "?P ar" by simp
    ultimately show ?thesis by blast
  next
    case 2
    then have "safe_fix_3mf_names lib (Some ar) slot_names create_assembly enable_colors color_mode
                 = Inr (Some fd)"
      by (simp add: safe_fix_3mf_names_def)
    moreover have "?P fd" using d m by (intro keep) simp_all
    ultimately show ?thesis by blast
  next
    case 3
    then have s: "safe_fix_3mf_names lib (Some ar) slot_names create_assembly enable_colors color_mode
                 = Inr (Some (AList.update mf x fd))"
      by (simp add: safe_fix_3mf_names_def)
    from 3(1) f have mf: "List.find is_model_name (map fst ar) = Some mf"
      by (simp add: find_model_file_def)
    have "?P (AList.update mf x fd)"
    proof (intro keep)
      show "distinct (map fst (AList.update mf x fd))" using d by (simp add: distinct_update)
      show "map_of (AList.update mf x fd) n = map_of (rev ar) n"
        if "List.find is_model_name (map fst ar) \<noteq> Some n" for n
        using that mf m by (auto simp: update_conv')
    qed
    with s show ?thesis by blast
  qed
qed


lemma split_char_not_Nil: "split_char sep s \<noteq> []"
  by (induction s) (auto split: list.splits)

lemma split_char_append: "split_char sep (a @ sep # b) = split_char sep a @ split_char sep b"
proof (induction a)
  case Nil
  then show ?case by simp
next
  case (Cons x a)
  obtain p ps where p: "split_char sep a = p # ps"
    using split_char_not_Nil [of sep a] by (cases "split_char sep a") auto
  show ?case using Cons p by simp
qed

lemma split_char_no_sep: "sep \<notin> set b \<Longrightarrow> split_char sep b = [b]"
  by (induction b) auto

lemma local_name_is_plain: "tag c = nm \<Longrightarrow> CHR ''}'' \<notin> set nm \<Longrightarrow> local_name_is nm c"
  by (simp add: local_name_is_def split_char_no_sep)

lemma local_name_is_namespaced:
  "tag c = a @ CHR ''}'' # nm \<Longrightarrow> CHR ''}'' \<notin> set nm \<Longrightarrow> local_name_is nm c"
  by (simp add: local_name_is_def split_char_append split_char_no_sep)

lemma find_path_None:
  assumes "first_index (local_name_is nm) (children root) = None"
    and "path = nm \<or> (\<exists>a. path = a @ CHR ''}'' # nm)" and "CHR ''}'' \<notin> set nm"
  shows "find_path root path = None"
proof -
  have "\<not> (tag c = path)" if "c \<in> set (children root)" for c
  proof
    assume "tag c = path"
    with assms(2,3) have "local_name_is nm c"
      using local_name_is_plain local_name_is_namespaced by blast
    with assms(1) that show False by (simp add: first_index_None)
  qed
  then show ?thesis by (simp add: find_path_def first_index_None)
qed

lemma locate_resources_None_iff:
  "locate_resources root = None
     \<longleftrightarrow> first_index (local_name_is ''resources'') (children root) = None"
proof
  assume "locate_resources root = None"
  then show "first_index (local_name_is ''resources'') (children root) = None"
    by (simp add: locate_resources_def Let_def split: if_splits)
next
  assume n: "first_index (local_name_is ''resources'') (children root) = None"
  have 1: "find_path root ''resources'' = None"
    by (rule find_path_None [OF n]) simp_all
  have 2: "find_path root (''{'' @ ns @ ''}resources'') = None" for ns
  proof (rule find_path_None [OF n])
    have "''{'' @ ns @ ''}resources'' = (''{'' @ ns) @ CHR ''}'' # ''resources''" by simp
    then show "''{'' @ ns @ ''}resources'' = ''resources''
                 \<or> (\<exists>a. ''{'' @ ns @ ''}resources'' = a @ CHR ''}'' # ''resources'')" by blast
  qed simp
  show "locate_resources root = None"
    by (simp add: locate_resources_def Let_def 1 2 [simplified] n)
qed

lemma add_colors_parse_error:
  "ET_fromstring lib (utf8_encode lib xml) = Inl e \<Longrightarrow> add_colors_to_xml_string lib xml mode = Inl e"
  by (simp add: add_colors_to_xml_string_def)

lemma add_colors_no_resources:
  assumes "ET_fromstring lib (utf8_encode lib xml) = Inr root"
    and "first_index (local_name_is ''resources'') (children root) = None"
  shows "add_colors_to_xml_string lib xml mode = Inl (ValueError ''<resources> element missing in XML'')"
proof -
  from assms(2) have "locate_resources root = None" by (simp add: locate_resources_None_iff)
  then have "get_objects_info root = Inl (ValueError ''<resources> element missing in XML'')"
    by (simp add: get_objects_info_def)
  with assms(1) show ?thesis by (simp add: add_colors_to_xml_string_def)
qed

lemma add_colors_with_resources:
  assumes "ET_fromstring lib (utf8_encode lib xml) = Inr root"
    and "first_index (local_name_is ''resources'') (children root) \<noteq> None"
  shows "\<exists>root'. add_colors_to_xml_string lib xml mode = utf8_decode lib (ET_tostring lib root')"
proof -
  from assms(2) obtain ri where ri: "first_index (local_name_is ''resources'') (children root) = Some ri"
    by auto
  from assms(2) have "locate_resources root \<noteq> None" by (simp add: locate_resources_None_iff)
  then obtain ci where ci: "locate_resources root = Some ci" by auto
  show ?thesis
    using assms(1) ri ci
    by (simp add: add_colors_to_xml_string_def get_objects_info_def Let_def case_prod_beta) blast
qed

lemma find_Some_mem: "List.find P xs = Some x \<Longrightarrow> x \<in> set xs \<and> P x"
  by (induction xs) (auto split: if_splits)

lemma safe_fix_color_failure:
  assumes "List.find is_model_name (map fst ar) = Some model_file"
    and "zf_read ar model_file = Inr data"
    and "utf8_decode lib data = Inr content0"
    and "fix_model_text slot_names create_assembly content0 = Inr content"
    and "add_colors_to_xml_string lib content
           (case color_mode of None \<Rightarrow> detect_color_mode slot_names | Some m \<Rightarrow> m) = Inl e"
  shows "\<exists>out. safe_fix_3mf_names lib (Some ar) slot_names create_assembly True color_mode
                 = Inr (Some out)
           \<and> zf_read out model_file = Inr data"
proof -
  from read_archive [of ar] obtain fd where
    r: "read_entries ar (map fst ar) [] = Inr fd" and
    m: "map_of fd = map_of (rev ar)" and
    d: "distinct (map fst fd)" and
    f: "\<forall>P. List.find P (map fst fd) = List.find P (map fst ar)"
    by blast
  from f assms(1) have fm: "find_model_file fd = Some model_file"
    by (simp add: find_model_file_def)
  from assms(2) have md: "map_of fd model_file = Some data"
    by (simp add: m zf_read_def split: option.splits)
  then have hk: "has_key model_file fd"
    by (metis has_key_def map_of_eq_None_iff option.distinct(1) set_map)
  from find_Some_mem [OF assms(1)] have "is_model_name model_file" by simp
  then have ne: "model_file \<noteq> []" by (auto simp: is_model_name_def suffix_def)
  have "process_model lib fd model_file slot_names create_assembly True color_mode = Inr fd"
    using md assms(3,4,5) by (simp add: process_model_def Let_def)
  then have "fix_3mf_names_try lib (Some ar) slot_names create_assembly True color_mode = Inr fd"
    using r fm hk ne by (simp add: fix_3mf_names_try_def open_archive_def)
  then have "safe_fix_3mf_names lib (Some ar) slot_names create_assembly True color_mode
               = Inr (Some fd)"
    by (simp add: safe_fix_3mf_names_def)
  moreover have "zf_read fd model_file = Inr data"
    using md by (simp add: zf_read_distinct [OF d])
  ultimately show ?thesis by blast
qed

lemma example_find_model: "List.find is_model_name (map fst model_archive) = Some ''3D/3dmodel.model''"
  unfolding model_archive_def by code_simp

lemma example_no_model: "List.find is_model_name (map fst auxiliary_archive) = None"
  unfolding auxiliary_archive_def by code_simp

lemma example_fix: "fix_model_text [''Red''] False plain_object_xml = Inr named_object_xml"
  unfolding plain_object_xml_def named_object_xml_def by code_simp

lemma example_parse:
  "ET_fromstring example_lib (utf8_encode example_lib named_object_xml)
     = Inr (Element ''model'' [] None None
              [Element ''object'' [(''id'', ''1''), (''name'', ''Red'')] None None []])"
  by (simp add: example_lib_def)

lemma example_color_failure:
  "add_colors_to_xml_string example_lib named_object_xml mode
     = Inl (ValueError ''<resources> element missing in XML'')"
  by (rule add_colors_no_resources [OF example_parse]) (simp add: local_name_is_def)

lemma example_read: "zf_read model_archive ''3D/3dmodel.model'' = Inr plain_object_xml"
  by (simp add: zf_read_def model_archive_def)

text \<open>
  C1. With colors enabled, when the color stage raises on the name-fixed text, the
  exception is caught, but \<^verbatim>\<open>files_data\<close> is not updated in that branch: the
  model entry written back is the original content, without the rename and assembly
  edits. (The branch for disabled colors stores the name-fixed text.)
\<close>

theorem color_failure_discards_name_fix:
  assumes "List.find is_model_name (map fst ar) = Some model_file"
    and "zf_read ar model_file = Inr data"
    and "utf8_decode lib data = Inr content0"
    and "fix_model_text slot_names create_assembly content0 = Inr content"
    and "add_colors_to_xml_string lib content
           (case color_mode of None \<Rightarrow> detect_color_mode slot_names | Some m \<Rightarrow> m) = Inl e"
  shows "\<exists>out. safe_fix_3mf_names lib (Some ar) slot_names create_assembly True color_mode
                 = Inr (Some out)
           \<and> zf_read out model_file = Inr data"
  using assms by (rule safe_fix_color_failure)

text \<open>
  The theorem at an archive whose model text has one object and no resources element:
  the name-fixed text differs from the original, the color stage raises on it, and the
  entry written back is the original text.
\<close>

theorem color_failure_discards_name_fix_witness:
  "List.find is_model_name (map fst model_archive) = Some ''3D/3dmodel.model''
   \<and> fix_model_text [''Red''] False plain_object_xml = Inr named_object_xml
   \<and> named_object_xml \<noteq> plain_object_xml
   \<and> utf8_encode example_lib named_object_xml \<noteq> plain_object_xml
   \<and> (\<exists>out. safe_fix_3mf_names example_lib (Some model_archive) [''Red''] False True None
                 = Inr (Some out)
           \<and> zf_read out ''3D/3dmodel.model'' = Inr plain_object_xml)"
proof -
  have d: "utf8_decode example_lib plain_object_xml = Inr plain_object_xml"
    by (simp add: example_lib_def)
  have c: "add_colors_to_xml_string example_lib named_object_xml
             (case None of None \<Rightarrow> detect_color_mode [''Red''] | Some m \<Rightarrow> m)
           = Inl (ValueError ''<resources> element missing in XML'')"
    by (rule example_color_failure)
  have n: "named_object_xml \<noteq> plain_object_xml"
    by (simp add: named_object_xml_def plain_object_xml_def)
  then have n': "utf8_encode example_lib named_object_xml \<noteq> plain_object_xml"
    by (simp add: example_lib_def)
  from color_failure_discards_name_fix [OF example_find_model example_read d example_fix c]
    example_find_model example_fix n n'
  show ?thesis by blast
qed

text \<open>
  C6 (as amended). \<open>safe_fix_3mf_names\<close> never propagates a failure: it always
  returns normally, and on a path without a readable archive it leaves the path as it
  is. \<open>add_colors_to_xml_string\<close> propagates the error of the parser and raises
  the ValueError for a document without a resources element; when the document
  parses and has a resources element it raises nothing of its own (missing meshes,
  unmatched part numbers and detection ties do not raise): its result is the decoded
  serialisation of a tree.
\<close>

theorem error_propagation:
  "(\<exists>f. safe_fix_3mf_names lib file slot_names create_assembly enable_colors color_mode = Inr f)
   \<and> safe_fix_3mf_names lib None slot_names create_assembly enable_colors color_mode = Inr None
   \<and> (\<forall>e. ET_fromstring lib (utf8_encode lib xml) = Inl e \<longrightarrow>
            add_colors_to_xml_string lib xml mode = Inl e)
   \<and> (\<forall>root. ET_fromstring lib (utf8_encode lib xml) = Inr root \<longrightarrow>
            (\<forall>c \<in> set (children root). \<not> local_name_is ''resources'' c) \<longrightarrow>
            add_colors_to_xml_string lib xml mode
              = Inl (ValueError ''<resources> element missing in XML''))
   \<and> (\<forall>root. ET_fromstring lib (utf8_encode lib xml) = Inr root \<longrightarrow>
            (\<exists>c \<in> set (children root). local_name_is ''resources'' c) \<longrightarrow>
            (\<exists>root'. add_colors_to_xml_string lib xml mode
                       = utf8_decode lib (ET_tostring lib root')))"
proof (intro conjI allI impI)
  show "\<exists>f. safe_fix_3mf_names lib file slot_names create_assembly enable_colors color_mode = Inr f"
    by (simp add: safe_fix_3mf_names_def split: sum.splits)
  show "safe_fix_3mf_names lib None slot_names create_assembly enable_colors color_mode = Inr None"
    by (simp add: safe_fix_3mf_names_def fix_3mf_names_try_def open_archive_def)
next
  fix e
  assume "ET_fromstring lib (utf8_encode lib xml) = Inl e"
  then show "add_colors_to_xml_string lib xml mode = Inl e" by (rule add_colors_parse_error)
next
  fix root
  assume p: "ET_fromstring lib (utf8_encode lib xml) = Inr root"
    and "\<forall>c \<in> set (children root). \<not> local_name_is ''resources'' c"
  then have "first_index (local_name_is ''resources'') (children root) = None"
    by (simp add: first_index_None)
  with p show "add_colors_to_xml_string lib xml mode
              = Inl (ValueError ''<resources> element missing in XML'')"
    by (rule add_colors_no_resources)
next
  fix root
  assume p: "ET_fromstring lib (utf8_encode lib xml) = Inr root"
    and "\<exists>c \<in> set (children root). local_name_is ''resources'' c"
  then have "first_index (local_name_is ''resources'') (children root) \<noteq> None"
    by (simp add: first_index_None)
  with p show "\<exists>root'. add_colors_to_xml_string lib xml mode
                       = utf8_decode lib (ET_tostring lib root')"
    by (rule add_colors_with_resources)
qed

text \<open>
  The theorem at the example library: an unreadable path, a text the parser rejects, a
  document without resources and a document with an empty resources element.
\<close>

theorem error_propagation_witness:
  "safe_fix_3mf_names example_lib None [''Red''] True True None = Inr None
   \<and> add_colors_to_xml_string example_lib ''no xml'' ''rybw'' = Inl ParseError
   \<and> add_colors_to_xml_string example_lib named_object_xml ''rybw''
       = Inl (ValueError ''<resources> element missing in XML'')
   \<and> (\<exists>root'. add_colors_to_xml_string example_lib empty_resources_xml ''rybw''
                = utf8_decode example_lib (ET_tostring example_lib root'))"
proof -
  have p1: "ET_fromstring example_lib (utf8_encode example_lib ''no xml'') = Inl ParseError"
    by (simp add: example_lib_def named_object_xml_def empty_resources_xml_def)
  have h2: "\<forall>c \<in> set (children (Element ''model'' [] None None
              [Element ''object'' [(''id'', ''1''), (''name'', ''Red'')] None None []])).
               \<not> local_name_is ''resources'' c"
    by (simp add: local_name_is_def)
  have p3: "ET_fromstring example_lib (utf8_encode example_lib empty_resources_xml)
              = Inr (Element ''model'' [] None None [Element ''resources'' [] None None []])"
    by (simp add: example_lib_def named_object_xml_def empty_resources_xml_def)
  have h3: "\<exists>c \<in> set (children (Element ''model'' [] None None [Element ''resources'' [] None None []])).
               local_name_is ''resources'' c"
    by (simp add: local_name_is_def)
  note A = error_propagation [of example_lib None "[''Red'']" True True None "''no xml''" "''rybw''"]
  note B = error_propagation [of example_lib None "[''Red'']" True True None named_object_xml "''rybw''"]
  note C = error_propagation [of example_lib None "[''Red'']" True True None empty_resources_xml "''rybw''"]
  from A have 1: "safe_fix_3mf_names example_lib None [''Red''] True True None = Inr None"
    by (rule conjunct1 [OF conjunct2])
  have 2: "add_colors_to_xml_string example_lib ''no xml'' ''rybw'' = Inl ParseError"
    by (rule A [THEN conjunct2, THEN conjunct2, THEN conjunct1, rule_format, OF p1])
  have 3: "add_colors_to_xml_string example_lib named_object_xml ''rybw''
       = Inl (ValueError ''<resources> element missing in XML'')"
    by (rule B [THEN conjunct2, THEN conjunct2, THEN conjunct2, THEN conjunct1, rule_format,
                OF example_parse]) (use h2 in simp)
  have 4: "\<exists>root'. add_colors_to_xml_string example_lib empty_resources_xml ''rybw''
                = utf8_decode example_lib (ET_tostring example_lib root')"
    by (rule C [THEN conjunct2, THEN conjunct2, THEN conjunct2, THEN conjunct2, rule_format,
                OF p3 h3])
  from 1 2 3 4 show ?thesis by blast
qed

lemma safe_fix_no_model:
  "read_entries ar (map fst ar) [] = Inr fd \<Longrightarrow> find_model_file fd = None \<Longrightarrow>
   safe_fix_3mf_names lib (Some ar) slot_names create_assembly enable_colors color_mode = Inr (Some fd)"
  by (simp add: safe_fix_3mf_names_def fix_3mf_names_try_def open_archive_def)

lemma read_distinct_archive:
  "distinct (map fst ar) \<Longrightarrow> read_entries ar (map fst ar) [] = Inr ar"
  using read_archive [of ar] by auto

lemma example_read_model: "read_entries model_archive (map fst model_archive) [] = Inr model_archive"
  by (rule read_distinct_archive) (simp add: model_archive_def)

lemma example_read_auxiliary:
  "read_entries auxiliary_archive (map fst auxiliary_archive) [] = Inr auxiliary_archive"
  by (rule read_distinct_archive) (simp add: auxiliary_archive_def)

text \<open>
  C6 as the specification states it fails for \<open>safe_fix_3mf_names\<close>: with an
  unreadable path, with an archive without a model entry, and with a model whose
  document has no resources element (on which the color stage raises), the call
  returns normally.
\<close>

theorem structural_errors_swallowed:
  "safe_fix_3mf_names example_lib None [''Red''] True True None = Inr None
   \<and> find_model_file auxiliary_archive = None
   \<and> safe_fix_3mf_names example_lib (Some auxiliary_archive) [''Red''] True True None
       = Inr (Some auxiliary_archive)
   \<and> fix_model_text [''Red''] False plain_object_xml = Inr named_object_xml
   \<and> add_colors_to_xml_string example_lib named_object_xml (detect_color_mode [''Red''])
       = Inl (ValueError ''<resources> element missing in XML'')
   \<and> safe_fix_3mf_names example_lib (Some model_archive) [''Red''] False True None
       = Inr (Some model_archive)"
proof -
  have 1: "safe_fix_3mf_names example_lib None [''Red''] True True None = Inr None"
    by (simp add: safe_fix_3mf_names_def fix_3mf_names_try_def open_archive_def)
  have 2: "find_model_file auxiliary_archive = None"
    by (simp add: find_model_file_def example_no_model)
  have 3: "safe_fix_3mf_names example_lib (Some auxiliary_archive) [''Red''] True True None
       = Inr (Some auxiliary_archive)"
    by (rule safe_fix_no_model [OF example_read_auxiliary 2])
  have 4: "add_colors_to_xml_string example_lib named_object_xml (detect_color_mode [''Red''])
       = Inl (ValueError ''<resources> element missing in XML'')"
    by (rule example_color_failure)
  have fm: "find_model_file model_archive = Some ''3D/3dmodel.model''"
    by (simp add: find_model_file_def example_find_model)
  have md: "map_of model_archive ''3D/3dmodel.model'' = Some plain_object_xml"
    by (simp add: model_archive_def)
  have hk: "has_key ''3D/3dmodel.model'' model_archive"
    by (simp add: has_key_def model_archive_def)
  have d: "utf8_decode example_lib plain_object_xml = Inr plain_object_xml"
    by (simp add: example_lib_def)
  have "process_model example_lib model_archive ''3D/3dmodel.model'' [''Red''] False True None
          = Inr model_archive"
    using md d example_fix 4 by (simp add: process_model_def Let_def)
  then have "fix_3mf_names_try example_lib (Some model_archive) [''Red''] False True None
               = Inr model_archive"
    using example_read_model fm hk by (simp add: fix_3mf_names_try_def open_archive_def)
  then have 5: "safe_fix_3mf_names example_lib (Some model_archive) [''Red''] False True None
       = Inr (Some model_archive)"
    by (simp add: safe_fix_3mf_names_def)
  from 1 2 3 example_fix 4 5 show ?thesis by blast
qed

text \<open>
  The theorem of C9 at the archive with a model entry, colors disabled: the content
  types entry is read back unchanged from the result.
\<close>

theorem auxiliary_entries_kept_witness:
  "List.find is_model_name (map fst model_archive) \<noteq> Some ''[Content_Types].xml''
   \<and> zf_read model_archive ''[Content_Types].xml'' = Inr ''<Types/>''
   \<and> distinct (map fst model_archive)
   \<and> (''[Content_Types].xml'', ''<Types/>'') \<in> set model_archive
   \<and> (\<exists>out. safe_fix_3mf_names example_lib (Some model_archive) [''Red''] False False None
                 = Inr (Some out)
           \<and> zf_read out ''[Content_Types].xml'' = Inr ''<Types/>''
           \<and> (''[Content_Types].xml'', ''<Types/>'') \<in> set out)"
proof -
  have a: "List.find is_model_name (map fst model_archive) \<noteq> Some ''[Content_Types].xml''"
    by (simp add: example_find_model)
  have b: "zf_read model_archive ''[Content_Types].xml'' = Inr ''<Types/>''"
    by (simp add: zf_read_def model_archive_def)
  have c: "distinct (map fst model_archive)"
    by (simp add: model_archive_def)
  have e: "(''[Content_Types].xml'', ''<Types/>'') \<in> set model_archive"
    by (simp add: model_archive_def)
  from auxiliary_entries_kept [of example_lib model_archive "[''Red'']" False False None]
  obtain out where
    o: "safe_fix_3mf_names example_lib (Some model_archive) [''Red''] False False None = Inr (Some out)"
    and k1: "\<forall>n d. List.find is_model_name (map fst model_archive) \<noteq> Some n \<longrightarrow>
               zf_read model_archive n = Inr d \<longrightarrow> zf_read out n = Inr d"
    and k2: "distinct (map fst model_archive) \<longrightarrow>
          (\<forall>n d. List.find is_model_name (map fst model_archive) \<noteq> Some n \<longrightarrow>
                 (n, d) \<in> set model_archive \<longrightarrow> (n, d) \<in> set out)"
    by (elim exE conjE)
  from k1 a b have 1: "zf_read out ''[Content_Types].xml'' = Inr ''<Types/>''" by blast
  from k2 a c e have 2: "(''[Content_Types].xml'', ''<Types/>'') \<in> set out" by blast
  from a b c e o 1 2 show ?thesis by blast
qed


end
